theory Spec2Isabelle
  imports Main "HOL-Library.Word" "HOL-Library.DAList"
begin

section \<open>Go values: integers, errors, panics, maps\<close>

text \<open>
  The package \<^verbatim>\<open>bugtool\<close> (file \<^verbatim>\<open>pkg/bugtool/maps.go\<close>) inventories the eBPF maps of a
  host. Go's \<^verbatim>\<open>int\<close> is a 64-bit two's-complement integer on the supported platforms: it is
  a \<open>64 word\<close>, read as a signed number with \<open>sint\<close>; addition wraps as in Go. Kernel object
  IDs and the keys and values of a program array are \<^verbatim>\<open>uint32\<close>.
\<close>

type_synonym go_int = "64 word"
type_synonym uint32 = "32 word"

text \<open>
  An \<^verbatim>\<open>error\<close> value. \<open>Errorf f args w\<close> is \<^verbatim>\<open>fmt.Errorf(f, args..., w)\<close>: the format string, its
  operands other than the wrapped error, and the error wrapped by \<^verbatim>\<open>%w\<close> when there is one
  (\<^verbatim>\<open>errors.New(msg)\<close> is \<open>Errorf msg [] None\<close>). The message is not rendered; an operand
  that is itself formatted is kept as \<open>ArgSprintf\<close>. \<open>Errno\<close> is a \<^verbatim>\<open>syscall.Errno\<close>, \<open>NumError\<close>
  the \<^verbatim>\<open>*strconv.NumError\<close> of the function and input named, \<open>LibError\<close> any other error
  of a library.
\<close>

datatype fmt_arg = ArgS string | ArgD int | ArgSprintf string "fmt_arg list"

datatype num_err = ErrSyntax | ErrRange

datatype error =
    Errno nat
  | NumError string string num_err
  | LibError string
  | Errorf string "fmt_arg list" "error option"

definition ENOENT :: error where
  "ENOENT = Errno 2"

text \<open>\<^verbatim>\<open>errors.Is\<close>: the error itself or one on its chain of wrapped errors is the target.\<close>

fun errors_Is :: "error \<Rightarrow> error \<Rightarrow> bool" where
  "errors_Is (Errorf f args (Some w)) target =
     (Errorf f args (Some w) = target \<or> errors_Is w target)"
| "errors_Is e target = (e = target)"

text \<open>
  A call either returns or panics. A panic is not an error value: no function of the package
  recovers from one, so it unwinds every caller.
\<close>

datatype 'a outcome = Return 'a | Panic

text \<open>
  A Go map is a finite map with unique keys: an association list with distinct keys
  (\<open>DAList\<close>). \<^verbatim>\<open>for i := range m\<close> visits every key once in an order the runtime chooses;
  the order of the list stands for that order, and \<open>m1_i\<close> below is \<^verbatim>\<open>m1[i]\<close>.
  \<open>exists_key m i\<close> is the second result of \<^verbatim>\<open>_, exists := m[i]\<close>.
\<close>

type_synonym 'v go_map = "(go_int, 'v) alist"

definition range_map :: "('k, 'v) alist \<Rightarrow> ('k \<times> 'v) list" where
  "range_map m = DAList.impl_of m"

definition exists_key :: "('k, 'v) alist \<Rightarrow> 'k \<Rightarrow> bool" where
  "exists_key m i = (case DAList.lookup m i of None \<Rightarrow> False | Some _ \<Rightarrow> True)"

text \<open>\<^verbatim>\<open>xs[i]\<close> on a slice: out of range is a run-time panic, here \<open>None\<close>.\<close>

definition index :: "'a list \<Rightarrow> nat \<Rightarrow> 'a option" where
  "index xs i = (if i < length xs then Some (xs ! i) else None)"

section \<open>Set algebra on maps keyed by ID\<close>

definition inter :: "'v go_map \<Rightarrow> 'v go_map \<Rightarrow> 'v go_map" where
  "inter m1 m2 =
     fold (\<lambda>(i, m1_i) ret. if exists_key m2 i then DAList.update i m1_i ret else ret)
       (range_map m1) DAList.empty"

definition diff :: "'v go_map \<Rightarrow> 'v go_map \<Rightarrow> 'v go_map" where
  "diff m1 m2 =
     fold (\<lambda>(i, m1_i) ret. if \<not> exists_key m2 i then DAList.update i m1_i ret else ret)
       (range_map m1) DAList.empty"

definition exter :: "'v go_map \<Rightarrow> 'v go_map \<Rightarrow> 'v go_map" where
  "exter m1 m2 =
     (let ret = fold (\<lambda>(i, m1_i) ret. if \<not> exists_key m2 i then DAList.update i m1_i ret else ret)
                  (range_map m1) DAList.empty
      in fold (\<lambda>(i, m2_i) ret. if \<not> exists_key m1 i then DAList.update i m2_i ret else ret)
           (range_map m2) ret)"

definition union :: "'v go_map \<Rightarrow> 'v go_map \<Rightarrow> 'v go_map" where
  "union m1 m2 =
     (let ret = fold (\<lambda>(i, m1_i) ret. DAList.update i m1_i ret) (range_map m1) DAList.empty
      in fold (\<lambda>(i, m2_i) ret. DAList.update i m2_i ret) (range_map m2) ret)"

section \<open>The fdinfo parser\<close>

text \<open>
  \<^verbatim>\<open>strings.Fields\<close> splits a string around runs of white space as \<^verbatim>\<open>unicode.IsSpace\<close> defines
  it. A string is a sequence of bytes; \<open>space_width s\<close> is the number of bytes of the
  white-space character that starts \<open>s\<close>, or 0: the six ASCII ones, U+0085 and U+00A0
  (two bytes in UTF-8), U+1680, U+2000 to U+200A, U+2028, U+2029, U+202F, U+205F and
  U+3000 (three bytes). Every other byte, also one of an invalid encoding, belongs to a
  field.
\<close>

definition asciiSpace :: "char \<Rightarrow> bool" where
  "asciiSpace c \<longleftrightarrow> c \<in> {CHR 0x09, CHR 0x0A, CHR 0x0B, CHR 0x0C, CHR 0x0D, CHR 0x20}"

fun space_width :: "string \<Rightarrow> nat" where
  "space_width [] = 0"
| "space_width (c # cs) =
     (if asciiSpace c then 1
      else if c = CHR 0xC2 then
        (case cs of d # _ \<Rightarrow> if d = CHR 0x85 \<or> d = CHR 0xA0 then 2 else 0 | _ \<Rightarrow> 0)
      else if c = CHR 0xE1 then
        (case cs of d # e # _ \<Rightarrow> if d = CHR 0x9A \<and> e = CHR 0x80 then 3 else 0 | _ \<Rightarrow> 0)
      else if c = CHR 0xE2 then
        (case cs of
           d # e # _ \<Rightarrow>
             if d = CHR 0x80 \<and>
                (((0x80::int) \<le> of_char e \<and> of_char e \<le> (0x8A::int)) \<or>
                 e \<in> {CHR 0xA8, CHR 0xA9, CHR 0xAF}) then 3
             else if d = CHR 0x81 \<and> e = CHR 0x9F then 3
             else 0
         | _ \<Rightarrow> 0)
      else if c = CHR 0xE3 then
        (case cs of d # e # _ \<Rightarrow> if d = CHR 0x80 \<and> e = CHR 0x80 then 3 else 0 | _ \<Rightarrow> 0)
      else 0)"

text \<open>
  \<open>fields_from skip cur s\<close>: \<open>skip\<close> bytes of a white-space character are still to be passed
  over, \<open>cur\<close> is the field read so far.
\<close>

fun fields_from :: "nat \<Rightarrow> string \<Rightarrow> string \<Rightarrow> string list" where
  "fields_from skip cur [] = (if cur = [] then [] else [cur])"
| "fields_from skip cur (c # cs) =
     (if 0 < skip then fields_from (skip - 1) cur cs
      else if 0 < space_width (c # cs)
        then (if cur = [] then [] else [cur]) @ fields_from (space_width (c # cs) - 1) [] cs
        else fields_from 0 (cur @ [c]) cs)"

definition Fields :: "string \<Rightarrow> string list" where
  "Fields s = fields_from 0 [] s"

text \<open>
  \<^verbatim>\<open>strconv.Atoi\<close>: an optional sign and decimal digits, in the range of \<^verbatim>\<open>int\<close>. The digits
  are read left to right; the first byte that is not a digit is a syntax error, the first
  step that leaves 64 unsigned bits a range error.
\<close>

definition is_digit :: "char \<Rightarrow> bool" where
  "is_digit c \<longleftrightarrow> (48::int) \<le> of_char c \<and> of_char c \<le> (57::int)"

fun ParseUint_loop :: "int \<Rightarrow> string \<Rightarrow> num_err + int" where
  "ParseUint_loop n [] = Inr n"
| "ParseUint_loop n (c # cs) =
     (if \<not> is_digit c then Inl ErrSyntax
      else if n \<ge> (2 ^ 64 - 1) div 10 + 1 then Inl ErrRange
      else if n * 10 + (of_char c - 48) > 2 ^ 64 - 1 then Inl ErrRange
      else ParseUint_loop (n * 10 + (of_char c - 48)) cs)"

definition Atoi :: "string \<Rightarrow> error + go_int" where
  "Atoi s0 =
     (if s0 = [] then Inl (NumError ''Atoi'' s0 ErrSyntax)
      else
        let neg = (hd s0 = CHR ''-'');
            s = (if hd s0 = CHR ''+'' \<or> hd s0 = CHR ''-'' then tl s0 else s0)
        in if s = [] then Inl (NumError ''Atoi'' s0 ErrSyntax)
           else (case ParseUint_loop 0 s of
                   Inl ErrSyntax \<Rightarrow> Inl (NumError ''Atoi'' s0 ErrSyntax)
                 | Inl ErrRange \<Rightarrow> Inl (NumError ''Atoi'' s0 ErrRange)
                 | Inr un \<Rightarrow>
                     if \<not> neg \<and> un \<ge> 2 ^ 63 then Inl (NumError ''Atoi'' s0 ErrRange)
                     else if neg \<and> un > 2 ^ 63 then Inl (NumError ''Atoi'' s0 ErrRange)
                     else Inr (if neg then - (word_of_int un) else word_of_int un)))"

text \<open>
  For the statements about \<open>Atoi\<close>: the number that a string of decimal digits denotes
  (\<open>decimal_from n\<close> continues from the digits read so far, of value \<open>n\<close>).
\<close>

definition decimal_from :: "int \<Rightarrow> string \<Rightarrow> int" where
  "decimal_from n ds = foldl (\<lambda>n c. n * 10 + (of_char c - 48)) n ds"

definition decimal :: "string \<Rightarrow> int" where
  "decimal ds = decimal_from 0 ds"

text \<open>
  A \<^verbatim>\<open>bufio.Scanner\<close> over the reader, as the parser sees it: \<open>Scan_Text\<close> are the lines that
  \<^verbatim>\<open>Text()\<close> returns while \<^verbatim>\<open>Scan()\<close> is true, in order, and \<open>Scan_Err\<close> is what \<^verbatim>\<open>Err()\<close>
  returns once \<^verbatim>\<open>Scan()\<close> is false (\<open>None\<close> at the end of the input, an error when the read
  failed or a line was too long for the scanner).
\<close>

record Scanner =
  Scan_Text :: "string list"
  Scan_Err :: "error option"

text \<open>
  The loop of \<^verbatim>\<open>parseMemlockFromFDInfoReader\<close>: \<open>Some\<close> is a \<^verbatim>\<open>return\<close> from inside the loop,
  \<open>None\<close> the loop left because \<^verbatim>\<open>Scan()\<close> was false.
\<close>

fun scan_loop :: "string list \<Rightarrow> (error + go_int) outcome option" where
  "scan_loop [] = None"
| "scan_loop (text # rest) =
     (let fields = Fields text in
      if length fields > 1 then
        (case index fields 0 of
           None \<Rightarrow> Some Panic
         | Some f0 \<Rightarrow>
             if f0 = ''memlock:'' then
               (case index fields 1 of
                  None \<Rightarrow> Some Panic
                | Some f1 \<Rightarrow>
                    (case Atoi f1 of
                       Inl e \<Rightarrow>
                         Some (Return (Inl (Errorf ''failed converting memlock to int: %w'' []
                           (Some e))))
                     | Inr memlock \<Rightarrow> Some (Return (Inr memlock))))
             else scan_loop rest)
      else scan_loop rest)"

definition parseMemlockFromFDInfoReader :: "Scanner \<Rightarrow> (error + go_int) outcome" where
  "parseMemlockFromFDInfoReader r =
     (case scan_loop (Scan_Text r) of
        Some ret \<Rightarrow> ret
      | None \<Rightarrow>
          (case Scan_Err r of
             Some e \<Rightarrow> Return (Inl (Errorf ''failed to scan: %w'' [] (Some e)))
           | None \<Rightarrow> Return (Inl (Errorf ''didn't find memlock field'' [] None))))"

text \<open>
  For the statements about the parser: a line on which the loop stops has at least two
  fields, the first of them the token \<^verbatim>\<open>memlock:\<close>.
\<close>

definition memlock_line :: "string \<Rightarrow> bool" where
  "memlock_line line \<longleftrightarrow> 1 < length (Fields line) \<and> hd (Fields line) = ''memlock:''"

section \<open>Kernel objects and the capabilities the package calls\<close>

text \<open>
  The metadata \<^verbatim>\<open>ebpf.MapInfo\<close> of a map; \<open>ID\<close> is the pair that the method \<^verbatim>\<open>ID()\<close> returns
  (the identifier, and whether the kernel reported one). \<^verbatim>\<open>ExtendedMapInfo\<close> embeds it and
  adds \<open>Memlock\<close>.
\<close>

type_synonym MapID = uint32
type_synonym ProgramID = uint32
type_synonym MapType = uint32

definition ProgramArray :: MapType where
  "ProgramArray = 3"

record MapInfo =
  Type :: MapType
  ID :: "MapID \<times> bool"
  KeySize :: uint32
  ValueSize :: uint32
  MaxEntries :: uint32
  Flags :: uint32
  Name :: string

record ExtendedMapInfo = MapInfo +
  Memlock :: go_int

definition ExtendedMapInfo_of :: "MapInfo \<Rightarrow> go_int \<Rightarrow> ExtendedMapInfo" where
  "ExtendedMapInfo_of info memlock = MapInfo.extend info (ExtendedMapInfo.fields memlock)"

text \<open>
  An iterator over a program array, by what its caller observes: for every call of \<^verbatim>\<open>Next\<close>
  that returns true, the key and the value it stores and what \<^verbatim>\<open>Err()\<close> returns right after
  it; and what \<^verbatim>\<open>Err()\<close> returns once \<^verbatim>\<open>Next\<close> has returned false. The library stops an
  iteration that fails by returning false from \<^verbatim>\<open>Next\<close> and reports the failure through
  \<^verbatim>\<open>Err()\<close> afterwards.
\<close>

record MapIterator =
  Next_true :: "(uint32 \<times> uint32 \<times> error option) list"
  Err_after :: "error option"

subsection \<open>The descriptors of the process\<close>

text \<open>
  The files under \<^verbatim>\<open>/proc/self/fd\<close> and \<^verbatim>\<open>/proc/self/fdinfo\<close> are read by descriptor number
  at the time of the call, and a number that is closed is given again to the next file
  opened. The descriptor table is therefore part of the state: it lists the numbers that
  are open with, for each, what a descriptor on that kernel object shows. \<open>Link\<close> is the
  result of \<^verbatim>\<open>os.Readlink\<close> on the entry of \<^verbatim>\<open>/proc/self/fd\<close> (for a BPF map the target
  \<^verbatim>\<open>anon_inode:bpf-map\<close>, for a program \<^verbatim>\<open>anon_inode:bpf-prog\<close>), \<open>Fdinfo\<close> the result of
  \<^verbatim>\<open>os.Open\<close> on the entry of \<^verbatim>\<open>/proc/self/fdinfo\<close>, with a scanner over the file.
  Descriptor numbers are not negative and no arithmetic is done on them: they are
  natural numbers here.
\<close>

record fd_entry =
  Link :: "error + string"
  Fdinfo :: "error + Scanner"

type_synonym fd_table = "(nat \<times> fd_entry) list"

text \<open>
  Opening a file takes the lowest number that is not open. Among the numbers from 0 to the
  length of the table one is free, so a search with that much fuel finds it.
\<close>

fun lowest_free_from :: "nat \<Rightarrow> nat \<Rightarrow> nat list \<Rightarrow> nat" where
  "lowest_free_from 0 n used = n"
| "lowest_free_from (Suc fuel) n used =
     (if n \<in> set used then lowest_free_from fuel (Suc n) used else n)"

definition lowest_free :: "fd_table \<Rightarrow> nat" where
  "lowest_free tbl = lowest_free_from (length tbl) 0 (map fst tbl)"

definition close_fd :: "nat \<Rightarrow> fd_table \<Rightarrow> fd_table" where
  "close_fd fd tbl = AList.delete fd tbl"

definition Readlink_fd :: "fd_table \<Rightarrow> nat \<Rightarrow> error + string" where
  "Readlink_fd tbl fd = (case map_of tbl fd of None \<Rightarrow> Inl ENOENT | Some e \<Rightarrow> Link e)"

definition Open_fdinfo :: "fd_table \<Rightarrow> nat \<Rightarrow> error + Scanner" where
  "Open_fdinfo tbl fd = (case map_of tbl fd of None \<Rightarrow> Inl ENOENT | Some e \<Rightarrow> Fdinfo e)"

subsection \<open>Objects, handles and the kernel\<close>

text \<open>
  What the library gives when it opens a map or a program, by what the methods of the
  handle return: \<^verbatim>\<open>Info()\<close>, \<^verbatim>\<open>Type()\<close> and \<^verbatim>\<open>Iterate()\<close> for a map, \<^verbatim>\<open>Info()\<close> with the result
  of \<^verbatim>\<open>MapIDs()\<close> on it (the identifiers and whether the field is available) for a program;
  and what a descriptor on the kernel object shows. A handle is such an object with the
  number of its descriptor, \<^verbatim>\<open>FD()\<close>.
\<close>

record MapObject =
  Map_Info :: "error + MapInfo"
  Map_Type :: MapType
  Map_Iterate :: MapIterator
  Map_entry :: fd_entry

record Map = MapObject +
  Map_FD :: nat

record ProgramInfo =
  MapIDs :: "MapID list \<times> bool"

record ProgramObject =
  Program_Info :: "error + ProgramInfo"
  Program_entry :: fd_entry

record Program = ProgramObject +
  Program_FD :: nat

definition open_map :: "MapObject \<Rightarrow> fd_table \<Rightarrow> Map \<times> fd_table" where
  "open_map obj tbl =
     (MapObject.extend obj (Map.fields (lowest_free tbl)),
      (lowest_free tbl, Map_entry obj) # tbl)"

definition open_program :: "ProgramObject \<Rightarrow> fd_table \<Rightarrow> Program \<times> fd_table" where
  "open_program obj tbl =
     (ProgramObject.extend obj (Program.fields (lowest_free tbl)),
      (lowest_free tbl, Program_entry obj) # tbl)"

text \<open>
  \<^verbatim>\<open>fs.DirEntry\<close>, and the calls that \<^verbatim>\<open>filepath.WalkDir\<close> makes to its function on a tree,
  in order, for as long as the function returns nil: the path, the entry (nil only when
  the root itself cannot be inspected) and the error passed along.
\<close>

record DirEntry =
  IsDir :: bool

type_synonym walk_calls = "(string \<times> DirEntry option \<times> error option) list"

text \<open>
  The kernel, the library and the file system as one snapshot: every capability is a
  function of its arguments. The four that open a handle give the object; the model
  gives it a descriptor. The load of a pinned object is the generic one of the library:
  it does not look at the kind of the object, so that a pinned program loads as a map
  (with metadata that mean nothing) and a pinned map as a program; its error is a failure
  of the load itself (no such path, no permission). The kind shows only in \<open>Link\<close>.
  \<open>MapType_String\<close> is the method \<^verbatim>\<open>String()\<close> of a map type.
\<close>

record kernel =
  MapGetNextID :: "MapID \<Rightarrow> error + MapID"
  NewMapFromID :: "MapID \<Rightarrow> error + MapObject"
  NewProgramFromID :: "ProgramID \<Rightarrow> error + ProgramObject"
  LoadPinnedMap :: "string \<Rightarrow> error + MapObject"
  LoadPinnedProgram :: "string \<Rightarrow> error + ProgramObject"
  Stat :: "string \<Rightarrow> error option"
  WalkDir_calls :: "string \<Rightarrow> walk_calls"
  MapType_String :: "MapType \<Rightarrow> string"

section \<open>Classifier and memlock of a descriptor\<close>

text \<open>
  Both read the descriptor table by number, as it is when they are called.
  \<^verbatim>\<open>parseMemlockFromFDInfo\<close> closes the file it opens before it returns, so it leaves the
  table as it found it.
\<close>

definition isBPFObject :: "fd_table \<Rightarrow> string \<Rightarrow> nat \<Rightarrow> error + bool" where
  "isBPFObject tbl object fd =
     (case Readlink_fd tbl fd of
        Inl err \<Rightarrow> Inl (Errorf ''failed to readlink the fd (%d): %w'' [ArgD (int fd)] (Some err))
      | Inr readlink \<Rightarrow> Inr (readlink = ''anon_inode:bpf-'' @ object))"

definition isProg :: "fd_table \<Rightarrow> nat \<Rightarrow> error + bool" where
  "isProg tbl fd = isBPFObject tbl ''prog'' fd"

definition isMap :: "fd_table \<Rightarrow> nat \<Rightarrow> error + bool" where
  "isMap tbl fd = isBPFObject tbl ''map'' fd"

definition parseMemlockFromFDInfo :: "fd_table \<Rightarrow> nat \<Rightarrow> (error + go_int) outcome" where
  "parseMemlockFromFDInfo tbl fd =
     (case Open_fdinfo tbl fd of
        Inl err \<Rightarrow>
          Return (Inl (Errorf ''failed to open file %q: %w''
            [ArgSprintf ''/proc/self/fdinfo/%d'' [ArgD (int fd)]] (Some err)))
      | Inr file \<Rightarrow> parseMemlockFromFDInfoReader file)"

definition TotalByteMemlock :: "'a ExtendedMapInfo_scheme list \<Rightarrow> go_int" where
  "TotalByteMemlock infos = fold (\<lambda>info sum. sum + Memlock info) infos 0"

section \<open>The map enumerator\<close>

text \<open>
  \<^verbatim>\<open>FindAllMaps\<close> with its handles made visible: the log records every call of
  \<^verbatim>\<open>MapGetNextID\<close> (with its argument), every handle opened and every handle closed, each
  handle named by its descriptor. \<^verbatim>\<open>defer m.Close()\<close> stands in the body of the \<^verbatim>\<open>for\<close>
  loop: a deferred call runs when the surrounding function returns, last deferred first,
  so \<open>deferred\<close> collects the handles and \<open>leave\<close> closes them at the \<^verbatim>\<open>return\<close> (or at a
  panic). The loop has no bound of its own: \<open>None\<close> is the enumeration that never ends.
  The result comes with the log and with the descriptor table at the end.
\<close>

datatype event = EvNextID MapID | EvOpen nat | EvClose nat

definition leave ::
  "Map list \<Rightarrow> event list \<Rightarrow> fd_table \<Rightarrow> 'a \<Rightarrow> 'a \<times> event list \<times> fd_table" where
  "leave deferred log tbl ret =
     (ret, log @ map (\<lambda>m. EvClose (Map_FD m)) deferred,
      fold (\<lambda>m tbl. close_fd (Map_FD m) tbl) deferred tbl)"

partial_function (option) FindAllMaps_loop ::
  "kernel \<Rightarrow> MapID \<Rightarrow> ExtendedMapInfo list \<Rightarrow> Map list \<Rightarrow> event list \<Rightarrow> fd_table \<Rightarrow>
   ((error + ExtendedMapInfo list) outcome \<times> event list \<times> fd_table) option" where
  "FindAllMaps_loop k mapID mapInfos deferred log tbl =
     (case MapGetNextID k mapID of
        Inl err \<Rightarrow>
          if errors_Is err ENOENT
          then Some (leave deferred (log @ [EvNextID mapID]) tbl (Return (Inr mapInfos)))
          else Some (leave deferred (log @ [EvNextID mapID]) tbl
                 (Return (Inl (Errorf ''didn't receive ENOENT at the end of iteration: %w'' []
                    (Some err)))))
      | Inr mapID' \<Rightarrow>
          (case NewMapFromID k mapID' of
             Inl err \<Rightarrow>
               Some (leave deferred (log @ [EvNextID mapID]) tbl
                 (Return (Inl (Errorf ''failed to retrieve map from ID: %w'' [] (Some err)))))
           | Inr obj \<Rightarrow>
               (case open_map obj tbl of
                  (m, tbl') \<Rightarrow>
                    (case Map_Info m of
                       Inl err \<Rightarrow>
                         Some (leave (m # deferred) (log @ [EvNextID mapID, EvOpen (Map_FD m)])
                           tbl'
                           (Return (Inl (Errorf ''failed to retrieve map info: %w'' []
                              (Some err)))))
                     | Inr info \<Rightarrow>
                         (case parseMemlockFromFDInfo tbl' (Map_FD m) of
                            Panic \<Rightarrow>
                              Some (leave (m # deferred)
                                (log @ [EvNextID mapID, EvOpen (Map_FD m)]) tbl' Panic)
                          | Return (Inl err) \<Rightarrow>
                              Some (leave (m # deferred)
                                (log @ [EvNextID mapID, EvOpen (Map_FD m)]) tbl'
                                (Return (Inl (Errorf
                                   ''failed parsing fdinfo to retrieve memlock: %w'' []
                                   (Some err)))))
                          | Return (Inr memlock) \<Rightarrow>
                              FindAllMaps_loop k mapID'
                                (mapInfos @ [ExtendedMapInfo_of info memlock])
                                (m # deferred) (log @ [EvNextID mapID, EvOpen (Map_FD m)])
                                tbl')))))"

definition FindAllMaps_log ::
  "kernel \<Rightarrow> fd_table \<Rightarrow>
   ((error + ExtendedMapInfo list) outcome \<times> event list \<times> fd_table) option" where
  "FindAllMaps_log k tbl = FindAllMaps_loop k 0 [] [] [] tbl"

definition FindAllMaps ::
  "kernel \<Rightarrow> fd_table \<Rightarrow> ((error + ExtendedMapInfo list) outcome \<times> fd_table) option" where
  "FindAllMaps k tbl = map_option (\<lambda>(ret, log, tbl'). (ret, tbl')) (FindAllMaps_log k tbl)"

text \<open>
  For the statements about the enumerator: \<open>cursor_yields k tbl prev steps\<close> says that, from
  the ID \<open>prev\<close> and the descriptor table \<open>tbl\<close> on, the cursor of \<open>k\<close> returns the IDs of
  \<open>steps\<close> one after the other, and that each of them opens, with the metadata and the
  memlock listed; \<open>table_after\<close> is the table once they are all open. \<open>records_of\<close> are the
  records of such steps, \<open>opens\<close> and \<open>closes\<close> the descriptors a log opens and closes.
\<close>

fun cursor_yields ::
  "kernel \<Rightarrow> fd_table \<Rightarrow> MapID \<Rightarrow> (MapID \<times> MapObject \<times> MapInfo \<times> go_int) list \<Rightarrow> bool" where
  "cursor_yields k tbl prev [] = True"
| "cursor_yields k tbl prev ((i, obj, info, memlock) # rest) =
     (MapGetNextID k prev = Inr i \<and> NewMapFromID k i = Inr obj \<and> Map_Info obj = Inr info \<and>
      parseMemlockFromFDInfo (snd (open_map obj tbl)) (Map_FD (fst (open_map obj tbl))) =
        Return (Inr memlock) \<and>
      cursor_yields k (snd (open_map obj tbl)) i rest)"

fun table_after ::
  "fd_table \<Rightarrow> (MapID \<times> MapObject \<times> MapInfo \<times> go_int) list \<Rightarrow> fd_table" where
  "table_after tbl [] = tbl"
| "table_after tbl ((i, obj, info, memlock) # rest) = table_after (snd (open_map obj tbl)) rest"

definition records_of ::
  "(MapID \<times> MapObject \<times> MapInfo \<times> go_int) list \<Rightarrow> ExtendedMapInfo list" where
  "records_of steps = map (\<lambda>(i, obj, info, memlock). ExtendedMapInfo_of info memlock) steps"

fun opens :: "event list \<Rightarrow> nat list" where
  "opens [] = []"
| "opens (EvOpen fd # log) = fd # opens log"
| "opens (_ # log) = opens log"

fun closes :: "event list \<Rightarrow> nat list" where
  "closes [] = []"
| "closes (EvClose fd # log) = fd # closes log"
| "closes (_ # log) = closes log"

section \<open>Walking the pinned objects\<close>

text \<open>
  \<^verbatim>\<open>filepath.WalkDir\<close> with a function that never returns \<^verbatim>\<open>SkipDir\<close> or \<^verbatim>\<open>SkipAll\<close> (the two
  functions below return nil or an error they build): it calls the function on the
  entries in order and stops at the first call that does not return nil. \<open>'s\<close> is the state
  that the function works on: the variables of the caller that the closure updates, and
  the descriptor table.
\<close>

fun WalkDir ::
  "(string \<Rightarrow> DirEntry option \<Rightarrow> error option \<Rightarrow> 's \<Rightarrow> error option outcome \<times> 's) \<Rightarrow>
   walk_calls \<Rightarrow> 's \<Rightarrow> error option outcome \<times> 's" where
  "WalkDir fn [] s = (Return None, s)"
| "WalkDir fn ((path, d, e) # rest) s =
     (case fn path d e s of
        (Return None, s') \<Rightarrow> WalkDir fn rest s'
      | (Return (Some err), s') \<Rightarrow> (Return (Some err), s')
      | (Panic, s') \<Rightarrow> (Panic, s'))"

text \<open>
  The function literal of \<^verbatim>\<open>FindPinnedMaps\<close>. \<^verbatim>\<open>d.IsDir()\<close> on a nil entry is a nil
  dereference. Once the load has succeeded, \<^verbatim>\<open>defer m.Close()\<close> closes the handle on every
  way out of the function: \<open>close_fd (Map_FD m)\<close> on the table.
\<close>

definition FindPinnedMaps_fn ::
  "kernel \<Rightarrow> string \<Rightarrow> DirEntry option \<Rightarrow> error option \<Rightarrow>
   ExtendedMapInfo list \<times> fd_table \<Rightarrow> error option outcome \<times> ExtendedMapInfo list \<times> fd_table" where
  "FindPinnedMaps_fn k path d unused st =
     (case st of (infos, tbl) \<Rightarrow>
      (case d of
         None \<Rightarrow> (Panic, st)
       | Some de \<Rightarrow>
           if IsDir de then (Return None, st)
           else
             (case LoadPinnedMap k path of
                Inl err \<Rightarrow>
                  (Return (Some (Errorf ''failed to load pinned map %q: %w'' [ArgS path]
                     (Some err))), st)
              | Inr obj \<Rightarrow>
                  (case open_map obj tbl of
                     (m, tbl') \<Rightarrow>
                       (case isMap tbl' (Map_FD m) of
                          Inl err \<Rightarrow> (Return (Some err), infos, close_fd (Map_FD m) tbl')
                        | Inr ok \<Rightarrow>
                            if \<not> ok then (Return None, infos, close_fd (Map_FD m) tbl')
                            else
                              (case Map_Info m of
                                 Inl err \<Rightarrow>
                                   (Return (Some (Errorf ''failed to retrieve map info: %w'' []
                                      (Some err))), infos, close_fd (Map_FD m) tbl')
                               | Inr info \<Rightarrow>
                                   (case parseMemlockFromFDInfo tbl' (Map_FD m) of
                                      Panic \<Rightarrow> (Panic, infos, close_fd (Map_FD m) tbl')
                                    | Return (Inl err) \<Rightarrow>
                                        (Return (Some (Errorf
                                           ''failed to parse memlock from fd (%d) info: %w''
                                           [ArgD (int (Map_FD m))] (Some err))),
                                         infos, close_fd (Map_FD m) tbl')
                                    | Return (Inr memlock) \<Rightarrow>
                                        (Return None,
                                         infos @ [ExtendedMapInfo_of info memlock],
                                         close_fd (Map_FD m) tbl'))))))))"

text \<open>What \<^verbatim>\<open>FindPinnedMaps\<close> returns after the walk, and the whole of it.\<close>

definition FindPinnedMaps_return ::
  "error option outcome \<times> ExtendedMapInfo list \<times> fd_table \<Rightarrow>
   (error + ExtendedMapInfo list) outcome \<times> fd_table" where
  "FindPinnedMaps_return w =
     (case w of
        (Panic, _, tbl) \<Rightarrow> (Panic, tbl)
      | (Return (Some err), _, tbl) \<Rightarrow> (Return (Inl err), tbl)
      | (Return None, infos, tbl) \<Rightarrow> (Return (Inr infos), tbl))"

definition FindPinnedMaps ::
  "kernel \<Rightarrow> fd_table \<Rightarrow> string \<Rightarrow> (error + ExtendedMapInfo list) outcome \<times> fd_table" where
  "FindPinnedMaps k tbl path =
     FindPinnedMaps_return (WalkDir (FindPinnedMaps_fn k) (WalkDir_calls k path) ([], tbl))"

section \<open>Maps referenced by pinned programs\<close>

text \<open>
  \<^verbatim>\<open>mapIDsFromProgs\<close> takes a pointer: \<open>None\<close> is nil. \<open>set_true\<close> is the loop
  \<^verbatim>\<open>for _, id := range ids { mapSet[id] = true }\<close>, \<open>Keys\<close> is \<^verbatim>\<open>maps.Keys\<close> and \<open>Values\<close> is
  \<^verbatim>\<open>maps.Values\<close>, the keys and the values in the order of a \<^verbatim>\<open>range\<close>.
\<close>

definition set_true :: "go_int list \<Rightarrow> bool go_map \<Rightarrow> bool go_map" where
  "set_true ids mapSet = fold (\<lambda>id mapSet. DAList.update id True mapSet) ids mapSet"

definition Keys :: "('k, 'v) alist \<Rightarrow> 'k list" where
  "Keys m = map fst (range_map m)"

definition Values :: "('k, 'v) alist \<Rightarrow> 'v list" where
  "Values m = map snd (range_map m)"

definition mapIDsFromProgs :: "Program option \<Rightarrow> error + go_int list" where
  "mapIDsFromProgs prog =
     (case prog of
        None \<Rightarrow> Inl (Errorf ''prog is nil'' [] None)
      | Some p \<Rightarrow>
          (case Program_Info p of
             Inl err \<Rightarrow> Inl (Errorf ''failed to retrieve prog info: %w'' [] (Some err))
           | Inr progInfo \<Rightarrow>
               (case MapIDs progInfo of
                  (ids, available) \<Rightarrow>
                    if \<not> available
                    then Inl (Errorf
                      ''can't link prog to map IDs, field available from 4.15'' [] None)
                    else Inr (Keys (set_true (map ucast ids) DAList.empty)))))"

text \<open>
  The function literal of \<^verbatim>\<open>mapIDsFromPinnedProgs\<close>; it updates \<open>mapSet\<close> and \<open>progArrays\<close>
  (a slice of pointers to maps). \<^verbatim>\<open>defer prog.Close()\<close> closes the program handle on every
  way out once the load has succeeded. The handle of a map that is a program array stays
  open, the handle of any other map is closed at once.
\<close>

definition mapIDsFromPinnedProgs_fn ::
  "kernel \<Rightarrow> string \<Rightarrow> DirEntry option \<Rightarrow> error option \<Rightarrow>
   bool go_map \<times> Map option list \<times> fd_table \<Rightarrow>
   error option outcome \<times> bool go_map \<times> Map option list \<times> fd_table" where
  "mapIDsFromPinnedProgs_fn k path d unused st =
     (case st of (mapSet, progArrays, tbl) \<Rightarrow>
      (case d of
         None \<Rightarrow> (Panic, st)
       | Some de \<Rightarrow>
           if IsDir de then (Return None, st)
           else
             (case LoadPinnedProgram k path of
                Inl err \<Rightarrow>
                  (Return (Some (Errorf ''failed to load pinned object %q: %w'' [ArgS path]
                     (Some err))), st)
              | Inr pobj \<Rightarrow>
                  (case open_program pobj tbl of
                     (prog, tbl1) \<Rightarrow>
                       (case isProg tbl1 (Program_FD prog) of
                          Inl err \<Rightarrow>
                            (Return (Some err), mapSet, progArrays,
                             close_fd (Program_FD prog) tbl1)
                        | Inr ok \<Rightarrow>
                            if \<not> ok then
                              (case isMap tbl1 (Program_FD prog) of
                                 Inl err \<Rightarrow>
                                   (Return (Some err), mapSet, progArrays,
                                    close_fd (Program_FD prog) tbl1)
                               | Inr ok \<Rightarrow>
                                   if ok then
                                     (case LoadPinnedMap k path of
                                        Inl err \<Rightarrow>
                                          (Return (Some (Errorf
                                             ''failed to load pinned map %q: %w'' [ArgS path]
                                             (Some err))),
                                           mapSet, progArrays, close_fd (Program_FD prog) tbl1)
                                      | Inr mobj \<Rightarrow>
                                          (case open_map mobj tbl1 of
                                             (m, tbl2) \<Rightarrow>
                                               if Map_Type m = ProgramArray
                                               then (Return None, mapSet, progArrays @ [Some m],
                                                     close_fd (Program_FD prog) tbl2)
                                               else (Return None, mapSet, progArrays,
                                                     close_fd (Program_FD prog)
                                                       (close_fd (Map_FD m) tbl2))))
                                   else (Return None, mapSet, progArrays,
                                         close_fd (Program_FD prog) tbl1))
                            else
                              (case mapIDsFromProgs (Some prog) of
                                 Inl err \<Rightarrow>
                                   (Return (Some (Errorf
                                      ''failed to retrieve map IDs from prog: %w'' []
                                      (Some err))),
                                    mapSet, progArrays, close_fd (Program_FD prog) tbl1)
                               | Inr newIDs \<Rightarrow>
                                   (Return None, set_true newIDs mapSet, progArrays,
                                    close_fd (Program_FD prog) tbl1)))))))"

text \<open>
  The loop over one iterator: \<^verbatim>\<open>Err()\<close> is read in the body, after the value is appended;
  when \<^verbatim>\<open>Next\<close> returns false the loop is left and \<^verbatim>\<open>Err()\<close> is not read again.
\<close>

fun iterate_loop ::
  "(uint32 \<times> uint32 \<times> error option) list \<Rightarrow> go_int list \<Rightarrow> error + go_int list" where
  "iterate_loop [] progIDs = Inr progIDs"
| "iterate_loop ((key, val, e) # rest) progIDs =
     (case e of
        Some err \<Rightarrow> Inl (Errorf ''failed to iterate over prog array map: %w'' [] (Some err))
      | None \<Rightarrow> iterate_loop rest (progIDs @ [ucast val]))"

text \<open>
  The two loops after the walk. Both defer the release of a handle inside the loop:
  \<open>deferred\<close> are the descriptors to close when \<^verbatim>\<open>mapIDsFromPinnedProgs\<close> returns, the last
  deferred first.
\<close>

fun progIDs_loop ::
  "Map option list \<Rightarrow> go_int list \<Rightarrow> nat list \<Rightarrow> (error + go_int list) \<times> nat list" where
  "progIDs_loop [] progIDs deferred = (Inr progIDs, deferred)"
| "progIDs_loop (progArray # rest) progIDs deferred =
     (case progArray of
        None \<Rightarrow> (Inl (Errorf ''prog array reference is nil'' [] None), deferred)
      | Some m \<Rightarrow>
          (case iterate_loop (Next_true (Map_Iterate m)) progIDs of
             Inl err \<Rightarrow> (Inl err, Map_FD m # deferred)
           | Inr progIDs' \<Rightarrow> progIDs_loop rest progIDs' (Map_FD m # deferred)))"

fun tail_calls_loop ::
  "kernel \<Rightarrow> go_int list \<Rightarrow> bool go_map \<Rightarrow> nat list \<Rightarrow> fd_table \<Rightarrow>
   (error + bool go_map) \<times> nat list \<times> fd_table" where
  "tail_calls_loop k [] mapSet deferred tbl = (Inr mapSet, deferred, tbl)"
| "tail_calls_loop k (progID # rest) mapSet deferred tbl =
     (case NewProgramFromID k (ucast progID) of
        Inl err \<Rightarrow>
          (Inl (Errorf ''failed to create new program from id %d: %w'' [ArgD (sint progID)]
             (Some err)), deferred, tbl)
      | Inr pobj \<Rightarrow>
          (case open_program pobj tbl of
             (prog, tbl') \<Rightarrow>
               (case mapIDsFromProgs (Some prog) of
                  Inl err \<Rightarrow>
                    (Inl (Errorf ''failed to retrieve map IDs from prog: %w'' [] (Some err)),
                     Program_FD prog # deferred, tbl')
                | Inr newIDs \<Rightarrow>
                    tail_calls_loop k rest (set_true newIDs mapSet)
                      (Program_FD prog # deferred) tbl')))"

definition run_deferred :: "nat list \<Rightarrow> fd_table \<Rightarrow> fd_table" where
  "run_deferred deferred tbl = fold close_fd deferred tbl"

text \<open>
  When the walk fails the function returns before any release is deferred: the program
  arrays kept so far stay open.
\<close>

definition mapIDsFromPinnedProgs ::
  "kernel \<Rightarrow> fd_table \<Rightarrow> string \<Rightarrow> (error + go_int list) outcome \<times> fd_table" where
  "mapIDsFromPinnedProgs k tbl path =
     (case WalkDir (mapIDsFromPinnedProgs_fn k) (WalkDir_calls k path) (DAList.empty, [], tbl) of
        (Panic, _, _, tbl') \<Rightarrow> (Panic, tbl')
      | (Return (Some err), _, _, tbl') \<Rightarrow>
          (Return (Inl (Errorf ''failed walking the path %q: %w'' [ArgS path] (Some err))), tbl')
      | (Return None, mapSet, progArrays, tbl') \<Rightarrow>
          (case progIDs_loop progArrays [] [] of
             (Inl err, deferred) \<Rightarrow> (Return (Inl err), run_deferred deferred tbl')
           | (Inr progIDs, deferred) \<Rightarrow>
               (case tail_calls_loop k progIDs mapSet deferred tbl' of
                  (Inl err, deferred', tbl'') \<Rightarrow>
                    (Return (Inl err), run_deferred deferred' tbl'')
                | (Inr mapSet', deferred', tbl'') \<Rightarrow>
                    (Return (Inr (Keys mapSet')), run_deferred deferred' tbl''))))"

definition memlockInfoFromMapID ::
  "kernel \<Rightarrow> fd_table \<Rightarrow> go_int \<Rightarrow> (error + ExtendedMapInfo) outcome \<times> fd_table" where
  "memlockInfoFromMapID k tbl mapID =
     (case NewMapFromID k (ucast mapID) of
        Inl err \<Rightarrow>
          (Return (Inl (Errorf ''failed creating a map FD from ID: %w'' [] (Some err))), tbl)
      | Inr obj \<Rightarrow>
          (case open_map obj tbl of
             (m, tbl') \<Rightarrow>
               (case parseMemlockFromFDInfo tbl' (Map_FD m) of
                  Panic \<Rightarrow> (Panic, close_fd (Map_FD m) tbl')
                | Return (Inl err) \<Rightarrow>
                    (Return (Inl (Errorf ''failed parsing fdinfo for memlock: %w'' []
                       (Some err))), close_fd (Map_FD m) tbl')
                | Return (Inr memlock) \<Rightarrow>
                    (case Map_Info m of
                       Inl err \<Rightarrow>
                         (Return (Inl (Errorf ''failed retrieving info from map: %w'' []
                            (Some err))), close_fd (Map_FD m) tbl')
                     | Inr info \<Rightarrow>
                         (Return (Inr (ExtendedMapInfo_of info memlock)),
                          close_fd (Map_FD m) tbl')))))"

fun memlockInfos_loop ::
  "kernel \<Rightarrow> go_int list \<Rightarrow> ExtendedMapInfo list \<Rightarrow> fd_table \<Rightarrow>
   (error + ExtendedMapInfo list) outcome \<times> fd_table" where
  "memlockInfos_loop k [] mapInfos tbl = (Return (Inr mapInfos), tbl)"
| "memlockInfos_loop k (mapID # rest) mapInfos tbl =
     (case memlockInfoFromMapID k tbl mapID of
        (Panic, tbl') \<Rightarrow> (Panic, tbl')
      | (Return (Inl err), tbl') \<Rightarrow>
          (Return (Inl (Errorf ''failed retrieving map memlock from ID: %w'' [] (Some err))),
           tbl')
      | (Return (Inr memlockInfo), tbl') \<Rightarrow>
          memlockInfos_loop k rest (mapInfos @ [memlockInfo]) tbl')"

definition FindMapsUsedByPinnedProgs ::
  "kernel \<Rightarrow> fd_table \<Rightarrow> string \<Rightarrow> (error + ExtendedMapInfo list) outcome \<times> fd_table" where
  "FindMapsUsedByPinnedProgs k tbl path =
     (case mapIDsFromPinnedProgs k tbl path of
        (Panic, tbl') \<Rightarrow> (Panic, tbl')
      | (Return (Inl err), tbl') \<Rightarrow>
          (Return (Inl (Errorf ''failed retrieving map IDs: %w'' [] (Some err))), tbl')
      | (Return (Inr mapIDs), tbl') \<Rightarrow> memlockInfos_loop k mapIDs [] tbl')"

section \<open>The report\<close>

text \<open>
  The output structures. \<open>PercentOfTotal\<close> is a \<^verbatim>\<open>float64\<close> in the source, the quotient of
  the group's memlock by the total, times 100: the record keeps the two integer operands
  and leaves the floating-point division out.
\<close>

definition TetragonBPFFS :: string where
  "TetragonBPFFS = ''/sys/fs/bpf/tetragon''"

record DiffMap =
  DiffMap_ID :: go_int
  DiffMap_Name :: string
  DiffMap_Type :: string
  DiffMap_KeySize :: go_int
  DiffMap_ValueSize :: go_int
  DiffMap_MaxEntries :: go_int
  DiffMap_Memlock :: go_int

record AggregatedMap =
  Agg_Name :: string
  Agg_Type :: string
  Agg_KeySize :: go_int
  Agg_ValueSize :: go_int
  Agg_MaxEntries :: go_int
  Count :: go_int
  TotalMemlock :: go_int
  PercentOfTotal :: "go_int \<times> go_int"

record MapsChecksOutput =
  TotalByteMemlock_AllMaps :: go_int
  TotalByteMemlock_PinnedProgsMaps :: go_int
  TotalByteMemlock_PinnedMaps :: go_int
  MapsStats_PinnedProgsMaps :: go_int
  MapsStats_PinnedMaps :: go_int
  MapsStats_Inter :: go_int
  MapsStats_Exter :: go_int
  MapsStats_Union :: go_int
  MapsStats_Diff :: go_int
  DiffMaps :: "DiffMap list"
  AggregatedMaps :: "AggregatedMap list"

text \<open>\<^verbatim>\<open>len\<close> of a slice, and of a map.\<close>

definition len :: "'a list \<Rightarrow> go_int" where
  "len xs = of_nat (length xs)"

definition len_map :: "('k, 'v) alist \<Rightarrow> go_int" where
  "len_map m = len (range_map m)"

text \<open>The two loops that key the records by ID; \<open>msg\<close> is the message of the error.\<close>

fun key_by_ID ::
  "string \<Rightarrow> ExtendedMapInfo list \<Rightarrow> ExtendedMapInfo go_map \<Rightarrow> error + ExtendedMapInfo go_map" where
  "key_by_ID msg [] mapsSet = Inr mapsSet"
| "key_by_ID msg (info # rest) mapsSet =
     (case ID info of
        (mapID, ok) \<Rightarrow>
          if \<not> ok then Inl (Errorf msg [] None)
          else key_by_ID msg rest (DAList.update (ucast mapID) info mapsSet))"

fun DiffMaps_loop :: "kernel \<Rightarrow> ExtendedMapInfo list \<Rightarrow> DiffMap list \<Rightarrow> error + DiffMap list" where
  "DiffMaps_loop k [] out = Inr out"
| "DiffMaps_loop k (d # rest) out =
     (case ID d of
        (mapID, ok) \<Rightarrow>
          if \<not> ok
          then Inl (Errorf ''failed retrieving map ID, need >= 4.13, kernel is too old'' [] None)
          else DiffMaps_loop k rest
                 (out @ [\<lparr>DiffMap_ID = ucast mapID, DiffMap_Name = Name d,
                          DiffMap_Type = MapType_String k (Type d),
                          DiffMap_KeySize = ucast (KeySize d),
                          DiffMap_ValueSize = ucast (ValueSize d),
                          DiffMap_MaxEntries = ucast (MaxEntries d),
                          DiffMap_Memlock = Memlock d\<rparr>]))"

text \<open>
  The aggregation by name. The anonymous struct of the source embeds \<^verbatim>\<open>ExtendedMapInfo\<close>
  and adds \<open>count\<close>. \<open>aggregate_step\<close> is the body of the loop over the union;
  \<open>total_all\<close> is the variable \<^verbatim>\<open>total\<close>.
\<close>

record aggregated = ExtendedMapInfo +
  count :: go_int

definition aggregate_step ::
  "ExtendedMapInfo \<Rightarrow> go_int \<times> (string, aggregated) alist \<Rightarrow>
   go_int \<times> (string, aggregated) alist" where
  "aggregate_step m st =
     (case st of
        (total_all, aggregatedMapsSet) \<Rightarrow>
          (total_all + Memlock m,
           (case DAList.lookup aggregatedMapsSet (Name m) of
              Some e \<Rightarrow>
                DAList.update (Name m)
                  (e\<lparr>Memlock := Memlock e + Memlock m, count := count e + 1\<rparr>)
                  aggregatedMapsSet
            | None \<Rightarrow>
                DAList.update (Name m) (ExtendedMapInfo.extend m (aggregated.fields 1))
                  aggregatedMapsSet)))"

text \<open>
  \<^verbatim>\<open>sort.Slice\<close> orders the slice by the comparison given; it is not stable, and the order
  of elements that compare equal is not specified. An insertion sort stands for it.
\<close>

fun insert_sorted :: "('a \<Rightarrow> 'a \<Rightarrow> bool) \<Rightarrow> 'a \<Rightarrow> 'a list \<Rightarrow> 'a list" where
  "insert_sorted lt x [] = [x]"
| "insert_sorted lt x (y # ys) =
     (if lt y x then y # insert_sorted lt x ys else x # y # ys)"

definition sort_Slice :: "('a \<Rightarrow> 'a \<Rightarrow> bool) \<Rightarrow> 'a list \<Rightarrow> 'a list" where
  "sort_Slice lt xs = foldr (insert_sorted lt) xs []"

definition aggregate_maps :: "kernel \<Rightarrow> ExtendedMapInfo go_map \<Rightarrow> AggregatedMap list" where
  "aggregate_maps k union_set =
     (case fold (\<lambda>(_, m) st. aggregate_step m st) (range_map union_set) (0, DAList.empty) of
        (total_all, aggregatedMapsSet) \<Rightarrow>
          map (\<lambda>m. \<lparr>Agg_Name = Name m, Agg_Type = MapType_String k (Type m),
                    Agg_KeySize = ucast (KeySize m), Agg_ValueSize = ucast (ValueSize m),
                    Agg_MaxEntries = ucast (MaxEntries m), Count = count m,
                    TotalMemlock = Memlock m, PercentOfTotal = (Memlock m, total_all)\<rparr>)
            (sort_Slice (\<lambda>a b. sint (Memlock a) > sint (Memlock b))
               (Values aggregatedMapsSet)))"

text \<open>
  \<^verbatim>\<open>RunMapsChecks\<close> once the three collections are there, and the whole of it, from the
  descriptor table of the process when it is called. It does not return when the
  enumeration of all maps does not.
\<close>

definition build_report ::
  "kernel \<Rightarrow> ExtendedMapInfo list \<Rightarrow> ExtendedMapInfo list \<Rightarrow> ExtendedMapInfo list \<Rightarrow>
   error + MapsChecksOutput" where
  "build_report k allMaps pinnedProgsMaps pinnedMaps =
     (case key_by_ID ''failed retrieving progs ID, need >= 4.13, kernel is too old''
             pinnedProgsMaps DAList.empty of
        Inl err \<Rightarrow> Inl err
      | Inr pinnedProgsMapsSet \<Rightarrow>
          (case key_by_ID ''failed retrieving map ID, need >= 4.13, kernel is too old''
                  pinnedMaps DAList.empty of
             Inl err \<Rightarrow> Inl err
           | Inr pinnedMapsSet \<Rightarrow>
               (let diff_set = diff pinnedMapsSet pinnedProgsMapsSet;
                    union_set = union pinnedMapsSet pinnedProgsMapsSet
                in case DiffMaps_loop k (Values diff_set) [] of
                     Inl err \<Rightarrow> Inl err
                   | Inr diffMaps \<Rightarrow>
                       Inr \<lparr>TotalByteMemlock_AllMaps = TotalByteMemlock allMaps,
                            TotalByteMemlock_PinnedProgsMaps = TotalByteMemlock pinnedProgsMaps,
                            TotalByteMemlock_PinnedMaps = TotalByteMemlock pinnedMaps,
                            MapsStats_PinnedProgsMaps = len_map pinnedProgsMapsSet,
                            MapsStats_PinnedMaps = len pinnedMaps,
                            MapsStats_Inter = len_map (inter pinnedMapsSet pinnedProgsMapsSet),
                            MapsStats_Exter = len_map (exter pinnedMapsSet pinnedProgsMapsSet),
                            MapsStats_Union = len_map union_set,
                            MapsStats_Diff = len_map diff_set,
                            DiffMaps = diffMaps,
                            AggregatedMaps = aggregate_maps k union_set\<rparr>)))"

definition RunMapsChecks ::
  "kernel \<Rightarrow> fd_table \<Rightarrow> ((error + MapsChecksOutput) outcome \<times> fd_table) option" where
  "RunMapsChecks k tbl =
     (case Stat k TetragonBPFFS of
        Some err \<Rightarrow>
          Some (Return (Inl (Errorf
            ''make sure tetragon is running and you have enough permissions: %w'' []
            (Some err))), tbl)
      | None \<Rightarrow>
          (case FindAllMaps k tbl of
             None \<Rightarrow> None
           | Some (Panic, tbl1) \<Rightarrow> Some (Panic, tbl1)
           | Some (Return (Inl err), tbl1) \<Rightarrow>
               Some (Return (Inl (Errorf ''failed to retrieve all maps: %w'' [] (Some err))),
                 tbl1)
           | Some (Return (Inr allMaps), tbl1) \<Rightarrow>
               (case FindMapsUsedByPinnedProgs k tbl1 TetragonBPFFS of
                  (Panic, tbl2) \<Rightarrow> Some (Panic, tbl2)
                | (Return (Inl err), tbl2) \<Rightarrow>
                    Some (Return (Inl (Errorf
                      ''failed to retrieve maps used by pinned progs: %w'' [] (Some err))),
                      tbl2)
                | (Return (Inr pinnedProgsMaps), tbl2) \<Rightarrow>
                    (case FindPinnedMaps k tbl2 TetragonBPFFS of
                       (Panic, tbl3) \<Rightarrow> Some (Panic, tbl3)
                     | (Return (Inl err), tbl3) \<Rightarrow>
                         Some (Return (Inl (Errorf ''failed to retrieve pinned maps: %w'' []
                           (Some err))), tbl3)
                     | (Return (Inr pinnedMaps), tbl3) \<Rightarrow>
                         Some (Return (build_report k allMaps pinnedProgsMaps pinnedMaps),
                           tbl3)))))"

section \<open>Concrete kernels for the examples\<close>

text \<open>
  A kernel with no object and no file: every capability fails with ENOENT, and the walk
  of any path makes no call. The examples below change the capabilities they need.
\<close>

definition MapType_name :: "MapType \<Rightarrow> string" where
  "MapType_name t =
     (if t = 1 then ''Hash'' else if t = 2 then ''Array''
      else if t = 3 then ''ProgramArray'' else ''UnspecifiedMap'')"

definition empty_kernel :: kernel where
  "empty_kernel =
     \<lparr>MapGetNextID = (\<lambda>_. Inl ENOENT), NewMapFromID = (\<lambda>_. Inl ENOENT),
      NewProgramFromID = (\<lambda>_. Inl ENOENT), LoadPinnedMap = (\<lambda>_. Inl ENOENT),
      LoadPinnedProgram = (\<lambda>_. Inl ENOENT), Stat = (\<lambda>_. None), WalkDir_calls = (\<lambda>_. []),
      MapType_String = MapType_name\<rparr>"

text \<open>The record of a hash map with the ID, the name and the memlock given.\<close>

definition hash_info :: "MapID \<Rightarrow> string \<Rightarrow> MapInfo" where
  "hash_info i n =
     \<lparr>Type = 1, ID = (i, True), KeySize = 4, ValueSize = 8, MaxEntries = 16, Flags = 0,
      Name = n\<rparr>"

definition map_record :: "MapID \<Rightarrow> string \<Rightarrow> go_int \<Rightarrow> ExtendedMapInfo" where
  "map_record i n memlock = ExtendedMapInfo_of (hash_info i n) memlock"

text \<open>
  What a descriptor shows on a BPF map whose fdinfo has the line \<^verbatim>\<open>memlock: 4096\<close>, on a BPF
  program, and on some other file; and a process that has the descriptors 0 to 10 open
  on other files, so that the next file it opens gets the number 11.
\<close>

definition map_fd :: fd_entry where
  "map_fd =
     \<lparr>Link = Inr ''anon_inode:bpf-map'',
      Fdinfo = Inr \<lparr>Scan_Text = [''pos: 0'', ''memlock: 4096''], Scan_Err = None\<rparr>\<rparr>"

definition prog_fd :: fd_entry where
  "prog_fd =
     \<lparr>Link = Inr ''anon_inode:bpf-prog'',
      Fdinfo = Inr \<lparr>Scan_Text = [''pos: 0'', ''memlock: 4096''], Scan_Err = None\<rparr>\<rparr>"

definition other_fd :: fd_entry where
  "other_fd =
     \<lparr>Link = Inr ''/dev/null'', Fdinfo = Inr \<lparr>Scan_Text = [''pos: 0''], Scan_Err = None\<rparr>\<rparr>"

definition process_fds :: fd_table where
  "process_fds = map (\<lambda>n. (n, other_fd)) [0, 1, 2, 3, 4, 5, 6, 7, 8, 9, 10]"

definition no_entries :: MapIterator where
  "no_entries = \<lparr>Next_true = [], Err_after = None\<rparr>"

definition hash_map :: "MapID \<Rightarrow> MapObject" where
  "hash_map i =
     \<lparr>Map_Info = Inr (hash_info i ''execve_map''), Map_Type = 1, Map_Iterate = no_entries,
      Map_entry = map_fd\<rparr>"

text \<open>
  Three maps with the IDs 1, 2 and 3: the cursor returns 1, 2, 3 and then ENOENT, and every
  fdinfo file has the line \<^verbatim>\<open>memlock: 4096\<close>. In \<open>cursor_fails\<close> the second call of the cursor
  fails with EPERM.
\<close>

definition three_maps :: kernel where
  "three_maps = empty_kernel
     \<lparr>MapGetNextID := (\<lambda>i. if i < 3 then Inr (i + 1) else Inl ENOENT),
      NewMapFromID := (\<lambda>i. if 1 \<le> i \<and> i \<le> 3 then Inr (hash_map i) else Inl ENOENT)\<rparr>"

definition cursor_fails :: kernel where
  "cursor_fails = three_maps\<lparr>MapGetNextID := (\<lambda>i. if i = 0 then Inr 1 else Inl (Errno 1))\<rparr>"

text \<open>
  A directory of pinned objects as the walkers meet it. In \<open>pinned_maps\<close> the root holds
  the entry \<^verbatim>\<open>event_execve\<close>, on which loading a pinned map does what \<open>first_load\<close> says, and
  the pinned map \<^verbatim>\<open>execve_map\<close> (ID 1, 4096 bytes of memlock).
\<close>

definition dir_entry :: DirEntry where
  "dir_entry = \<lparr>IsDir = True\<rparr>"

definition file_entry :: DirEntry where
  "file_entry = \<lparr>IsDir = False\<rparr>"



text \<open>
  In \<open>pinned_progs\<close> the root holds the pinned program \<^verbatim>\<open>event_execve\<close>, which references
  the map 5, and the pinned program array \<^verbatim>\<open>execve_calls\<close>, iterated as \<open>it\<close> says; the
  program 42 references the map 7. Loading the array as a program gives a handle whose
  descriptor is one on a map.
\<close>

definition prog_referencing :: "MapID list \<Rightarrow> ProgramObject" where
  "prog_referencing ids =
     \<lparr>Program_Info = Inr \<lparr>MapIDs = (ids, True)\<rparr>, Program_entry = prog_fd\<rparr>"

definition map_as_program :: ProgramObject where
  "map_as_program = \<lparr>Program_Info = Inl (Errno 22), Program_entry = map_fd\<rparr>"

definition prog_array :: "MapIterator \<Rightarrow> MapObject" where
  "prog_array it =
     \<lparr>Map_Info = Inr \<lparr>Type = ProgramArray, ID = (9, True), KeySize = 4, ValueSize = 4,
                      MaxEntries = 8, Flags = 0, Name = ''execve_calls''\<rparr>,
      Map_Type = ProgramArray, Map_Iterate = it, Map_entry = map_fd\<rparr>"

definition pinned_progs :: "MapIterator \<Rightarrow> kernel" where
  "pinned_progs it = empty_kernel
     \<lparr>WalkDir_calls := (\<lambda>root. if root = TetragonBPFFS
         then [(TetragonBPFFS, Some dir_entry, None),
               (''/sys/fs/bpf/tetragon/event_execve'', Some file_entry, None),
               (''/sys/fs/bpf/tetragon/execve_calls'', Some file_entry, None)]
         else []),
      LoadPinnedProgram := (\<lambda>path.
         if path = ''/sys/fs/bpf/tetragon/event_execve'' then Inr (prog_referencing [5])
         else if path = ''/sys/fs/bpf/tetragon/execve_calls'' then Inr map_as_program
         else Inl ENOENT),
      LoadPinnedMap := (\<lambda>path.
         if path = ''/sys/fs/bpf/tetragon/execve_calls'' then Inr (prog_array it)
         else Inl ENOENT),
      NewProgramFromID := (\<lambda>i. if i = 42 then Inr (prog_referencing [7]) else Inl ENOENT)\<rparr>"



section \<open>Theorems\<close>

subsection \<open>Set algebra\<close>

text \<open>
  Each operation is characterised key by key. The loops write every key of their input at
  most once, so the result does not depend on the order in which \<^verbatim>\<open>range\<close> visits the keys.
\<close>

lemma map_of_range_map: "map_of (range_map m) = DAList.lookup m"
  by (simp add: range_map_def DAList.lookup.rep_eq)

lemma distinct_range_map: "distinct (map fst (range_map m))"
  by (simp add: range_map_def)

lemma in_range_map_keys: "k \<in> fst ` set (range_map m) \<longleftrightarrow> exists_key m k"
proof -
  have "exists_key m k \<longleftrightarrow> map_of (range_map m) k \<noteq> None"
    by (simp add: exists_key_def map_of_range_map split: option.splits)
  then show ?thesis
    by (simp add: map_of_eq_None_iff)
qed

lemma lookup_fold_update:
  "distinct (map fst xs) \<Longrightarrow>
   DAList.lookup (fold (\<lambda>(i, v) ret. if P i then DAList.update i v ret else ret) xs acc) k =
     (if P k \<and> k \<in> fst ` set xs then map_of xs k else DAList.lookup acc k)"
proof (induction xs arbitrary: acc)
  case Nil
  then show ?case by simp
next
  case (Cons x xs)
  obtain i v where x: "x = (i, v)" by (cases x)
  from Cons.prems have d: "distinct (map fst xs)" and ni: "i \<notin> fst ` set xs"
    by (simp_all add: x)
  show ?case
    using ni by (auto simp: x Cons.IH [OF d] DAList.lookup_update)
qed

lemma lookup_fold_update_all:
  "distinct (map fst xs) \<Longrightarrow>
   DAList.lookup (fold (\<lambda>(i, v) ret. DAList.update i v ret) xs acc) k =
     (if k \<in> fst ` set xs then map_of xs k else DAList.lookup acc k)"
  using lookup_fold_update [where P = "\<lambda>_. True" and xs = xs and acc = acc and k = k]
  by simp

lemma lookup_inter:
  "DAList.lookup (inter m1 m2) k = (if exists_key m2 k then DAList.lookup m1 k else None)"
  by (simp add: inter_def lookup_fold_update distinct_range_map in_range_map_keys
      map_of_range_map exists_key_def split: option.splits)

lemma lookup_diff:
  "DAList.lookup (diff m1 m2) k = (if exists_key m2 k then None else DAList.lookup m1 k)"
  by (simp add: diff_def lookup_fold_update distinct_range_map in_range_map_keys
      map_of_range_map exists_key_def split: option.splits)

lemma lookup_union:
  "DAList.lookup (union m1 m2) k =
     (if exists_key m2 k then DAList.lookup m2 k else DAList.lookup m1 k)"
  by (simp add: union_def Let_def lookup_fold_update_all distinct_range_map in_range_map_keys
      map_of_range_map exists_key_def split: option.splits)

lemma lookup_exter:
  "DAList.lookup (exter m1 m2) k =
     (if exists_key m1 k then (if exists_key m2 k then None else DAList.lookup m1 k)
      else DAList.lookup m2 k)"
  by (simp add: exter_def Let_def lookup_fold_update distinct_range_map in_range_map_keys
      map_of_range_map exists_key_def split: option.splits)

lemma dom_lookup: "dom (DAList.lookup m) = {k. exists_key m k}"
  by (auto simp: exists_key_def dom_def split: option.splits)

text \<open>
  Claim C3, as stated: the collection \<open>union A B\<close> equals the union of the three collections
  \<open>diff A B\<close>, \<open>inter A B\<close> and \<open>diff B A\<close>, which have no key in common. It fails as an
  equation between collections: on a key of both inputs \<open>union\<close> carries the record of \<open>B\<close>
  and \<open>inter A B\<close> the record of \<open>A\<close>. Here both inputs have the key 1, with the records
  10 and 20.
\<close>

theorem union_three_parts_counterexample:
  "DAList.lookup (union (DAList.update 1 (10::nat) DAList.empty)
       (DAList.update 1 20 DAList.empty)) \<noteq>
   DAList.lookup (diff (DAList.update 1 10 DAList.empty) (DAList.update 1 20 DAList.empty)) ++
   DAList.lookup (inter (DAList.update 1 10 DAList.empty) (DAList.update 1 20 DAList.empty)) ++
   DAList.lookup (diff (DAList.update 1 20 DAList.empty) (DAList.update 1 10 DAList.empty))"
proof
  assume eq: "DAList.lookup (union (DAList.update 1 (10::nat) DAList.empty)
       (DAList.update 1 20 DAList.empty)) =
   DAList.lookup (diff (DAList.update 1 10 DAList.empty) (DAList.update 1 20 DAList.empty)) ++
   DAList.lookup (inter (DAList.update 1 10 DAList.empty) (DAList.update 1 20 DAList.empty)) ++
   DAList.lookup (diff (DAList.update 1 20 DAList.empty) (DAList.update 1 10 DAList.empty))"
  have "DAList.lookup (union (DAList.update 1 (10::nat) DAList.empty)
       (DAList.update 1 20 DAList.empty)) 1 = Some 20"
    by (simp add: lookup_union exists_key_def)
  moreover have
   "(DAList.lookup (diff (DAList.update 1 (10::nat) DAList.empty) (DAList.update 1 20 DAList.empty)) ++
     DAList.lookup (inter (DAList.update 1 10 DAList.empty) (DAList.update 1 20 DAList.empty)) ++
     DAList.lookup (diff (DAList.update 1 20 DAList.empty) (DAList.update 1 10 DAList.empty))) 1
    = Some 10"
    by (simp add: map_add_def lookup_diff lookup_inter exists_key_def)
  ultimately show False
    using eq by simp
qed

text \<open>
  Claim C3, amended: \<open>union A B\<close> has exactly the keys of \<open>diff A B\<close>, \<open>inter A B\<close> and
  \<open>diff B A\<close>; no key occurs in two of these three; and as a collection \<open>union A B\<close> is the
  union of \<open>diff A B\<close>, \<open>inter B A\<close> and \<open>diff B A\<close>, that is, a key of both inputs carries
  the record of \<open>B\<close>.
\<close>

theorem union_three_parts:
  "dom (DAList.lookup (union A B)) =
     dom (DAList.lookup (diff A B)) \<union> dom (DAList.lookup (inter A B)) \<union>
     dom (DAList.lookup (diff B A)) \<and>
   dom (DAList.lookup (diff A B)) \<inter> dom (DAList.lookup (inter A B)) = {} \<and>
   dom (DAList.lookup (diff A B)) \<inter> dom (DAList.lookup (diff B A)) = {} \<and>
   dom (DAList.lookup (inter A B)) \<inter> dom (DAList.lookup (diff B A)) = {} \<and>
   DAList.lookup (union A B) =
     DAList.lookup (diff A B) ++ DAList.lookup (inter B A) ++ DAList.lookup (diff B A)"
proof (intro conjI)
  show "dom (DAList.lookup (union A B)) =
     dom (DAList.lookup (diff A B)) \<union> dom (DAList.lookup (inter A B)) \<union>
     dom (DAList.lookup (diff B A))"
    by (auto simp: dom_lookup exists_key_def lookup_union lookup_diff lookup_inter
        split: option.splits if_splits)
  show "dom (DAList.lookup (diff A B)) \<inter> dom (DAList.lookup (inter A B)) = {}"
    by (auto simp: dom_lookup exists_key_def lookup_diff lookup_inter
        split: option.splits if_splits)
  show "dom (DAList.lookup (diff A B)) \<inter> dom (DAList.lookup (diff B A)) = {}"
    by (auto simp: dom_lookup exists_key_def lookup_diff split: option.splits if_splits)
  show "dom (DAList.lookup (inter A B)) \<inter> dom (DAList.lookup (diff B A)) = {}"
    by (auto simp: dom_lookup exists_key_def lookup_diff lookup_inter
        split: option.splits if_splits)
  show "DAList.lookup (union A B) =
     DAList.lookup (diff A B) ++ DAList.lookup (inter B A) ++ DAList.lookup (diff B A)"
    by (rule ext)
      (auto simp: map_add_def exists_key_def lookup_union lookup_diff lookup_inter
        split: option.splits)
qed

text \<open>
  Claim C9: \<open>exter\<close> is commutative as a collection. \<open>exter A B\<close> and \<open>exter B A\<close> have the
  same keys, those of exactly one input, and each key carries the record of the input
  that has it.
\<close>

theorem exter_commutative:
  "DAList.lookup (exter A B) = DAList.lookup (exter B A) \<and>
   dom (DAList.lookup (exter A B)) =
     (dom (DAList.lookup A) - dom (DAList.lookup B)) \<union>
     (dom (DAList.lookup B) - dom (DAList.lookup A)) \<and>
   DAList.lookup (exter A B) k =
     (if exists_key A k \<and> \<not> exists_key B k then DAList.lookup A k
      else if exists_key B k \<and> \<not> exists_key A k then DAList.lookup B k
      else None)"
proof (intro conjI)
  show "DAList.lookup (exter A B) = DAList.lookup (exter B A)"
    by (rule ext) (simp add: lookup_exter exists_key_def split: option.splits)
  show "dom (DAList.lookup (exter A B)) =
     (dom (DAList.lookup A) - dom (DAList.lookup B)) \<union>
     (dom (DAList.lookup B) - dom (DAList.lookup A))"
    by (auto simp: dom_lookup exists_key_def lookup_exter split: option.splits if_splits)
  show "DAList.lookup (exter A B) k =
     (if exists_key A k \<and> \<not> exists_key B k then DAList.lookup A k
      else if exists_key B k \<and> \<not> exists_key A k then DAList.lookup B k
      else None)"
    by (simp add: lookup_exter exists_key_def split: option.splits)
qed

subsection \<open>The fdinfo parser\<close>

lemma scan_loop_skip: "\<not> memlock_line line \<Longrightarrow> scan_loop (line # rest) = scan_loop rest"
  by (auto simp: memlock_line_def index_def Let_def hd_conv_nth)

lemma scan_loop_stop:
  "memlock_line line \<Longrightarrow> scan_loop (line # xs) = scan_loop (line # ys)"
  by (auto simp: memlock_line_def index_def Let_def hd_conv_nth split: sum.splits)

lemma scan_loop_hit:
  "Fields line = ''memlock:'' # f1 # fs \<Longrightarrow>
   scan_loop (line # rest) =
     Some (Return (case Atoi f1 of
        Inl e \<Rightarrow> Inl (Errorf ''failed converting memlock to int: %w'' [] (Some e))
      | Inr memlock \<Rightarrow> Inr memlock))"
  by (simp add: index_def Let_def split: sum.splits)

lemma scan_loop_append:
  "\<forall>l \<in> set pre. \<not> memlock_line l \<Longrightarrow> scan_loop (pre @ rest) = scan_loop rest"
  by (induction pre) (simp_all add: scan_loop_skip del: scan_loop.simps)

lemma scan_loop_no_panic: "scan_loop ls \<noteq> Some Panic"
  by (induction ls) (auto simp: index_def Let_def split: sum.splits)

lemma scan_loop_skip_inside:
  "\<not> memlock_line line \<Longrightarrow> scan_loop (pre @ line # rest) = scan_loop (pre @ rest)"
proof (induction pre)
  case Nil
  then show ?case by (simp add: scan_loop_skip del: scan_loop.simps)
next
  case (Cons l pre)
  show ?case
  proof (cases "memlock_line l")
    case True
    then show ?thesis
      using scan_loop_stop [of l "pre @ line # rest" "pre @ rest"] by simp
  next
    case False
    then show ?thesis
      using Cons by (simp add: scan_loop_skip del: scan_loop.simps)
  qed
qed

text \<open>
  \<open>Atoi\<close> on digits, with or without a sign: the number they denote when it is in the range
  of \<^verbatim>\<open>int\<close>, a range error otherwise.
\<close>

lemma decimal_from_mono:
  "0 \<le> n \<Longrightarrow> list_all is_digit ds \<Longrightarrow> n \<le> decimal_from n ds"
proof (induction ds arbitrary: n)
  case Nil
  then show ?case by (simp add: decimal_from_def)
next
  case (Cons c ds)
  then have ds: "list_all is_digit ds" by simp
  from Cons.prems have d: "(48::int) \<le> of_char c" by (simp add: is_digit_def)
  have "n * 10 + (of_char c - 48) \<le> decimal_from (n * 10 + (of_char c - 48)) ds"
    using Cons.prems(1) d by (intro Cons.IH ds) simp
  then show ?case
    using Cons.prems(1) d by (simp add: decimal_from_def)
qed

lemma ParseUint_loop_digits:
  "0 \<le> n \<Longrightarrow> n \<le> 2 ^ 64 - 1 \<Longrightarrow> list_all is_digit ds \<Longrightarrow>
   ParseUint_loop n ds =
     (if decimal_from n ds \<le> 2 ^ 64 - 1 then Inr (decimal_from n ds) else Inl ErrRange)"
proof (induction ds arbitrary: n)
  case Nil
  then show ?case by (simp add: decimal_from_def)
next
  case (Cons c ds)
  then have ds: "list_all is_digit ds" and c: "is_digit c" by simp_all
  from c have d: "(48::int) \<le> of_char c" by (simp add: is_digit_def)
  let ?n = "n * 10 + (of_char c - 48)"
  have n': "0 \<le> ?n" using Cons.prems(1) d by simp
  have step: "decimal_from n (c # ds) = decimal_from ?n ds"
    by (simp add: decimal_from_def)
  have mono: "?n \<le> decimal_from ?n ds"
    by (rule decimal_from_mono [OF n' ds])
  show ?case
  proof (cases "n \<ge> (2 ^ 64 - 1) div 10 + 1 \<or> ?n > 2 ^ 64 - 1")
    case True
    then have "?n > 2 ^ 64 - 1" using d by auto
    with mono have "\<not> decimal_from ?n ds \<le> 2 ^ 64 - 1" by simp
    with True show ?thesis
      using c by (auto simp: step)
  next
    case False
    then have "?n \<le> 2 ^ 64 - 1" by simp
    from Cons.IH [OF n' this ds] False show ?thesis
      using c by (simp add: step)
  qed
qed

lemma Atoi_unsigned:
  assumes "ds \<noteq> []" "list_all is_digit ds"
  shows "Atoi ds =
     (if decimal ds < 2 ^ 63 then Inr (word_of_int (decimal ds))
      else Inl (NumError ''Atoi'' ds ErrRange))"
proof -
  from assms have "is_digit (hd ds)" by (cases ds) simp_all
  then have "hd ds \<noteq> CHR ''+''" "hd ds \<noteq> CHR ''-''"
    by (auto simp: is_digit_def)
  then show ?thesis
    using assms by (simp add: Atoi_def decimal_def ParseUint_loop_digits)
qed

lemma Atoi_minus:
  assumes "ds \<noteq> []" "list_all is_digit ds"
  shows "Atoi (CHR ''-'' # ds) =
     (if decimal ds \<le> 2 ^ 63 then Inr (word_of_int (- decimal ds))
      else Inl (NumError ''Atoi'' (CHR ''-'' # ds) ErrRange))"
  using assms by (simp add: Atoi_def decimal_def ParseUint_loop_digits)

lemma Atoi_plus:
  assumes "ds \<noteq> []" "list_all is_digit ds"
  shows "Atoi (CHR ''+'' # ds) =
     (if decimal ds < 2 ^ 63 then Inr (word_of_int (decimal ds))
      else Inl (NumError ''Atoi'' (CHR ''+'' # ds) ErrRange))"
  using assms by (simp add: Atoi_def decimal_def ParseUint_loop_digits)

lemma sint_go_int: "- (2 ^ 63) \<le> v \<Longrightarrow> v < 2 ^ 63 \<Longrightarrow> sint (word_of_int v :: go_int) = v"
  by (simp add: sint_sbintrunc' signed_take_bit_int_eq_self)

lemmas parser_eval =
  parseMemlockFromFDInfoReader_def Fields_def asciiSpace_def index_def Atoi_def is_digit_def
  memlock_line_def decimal_def decimal_from_def

text \<open>
  Claim C5, as stated: the value returned is the second field of the first \<^verbatim>\<open>memlock:\<close>
  line read as a non-negative integer. The parser reads the field with \<^verbatim>\<open>strconv.Atoi\<close>,
  which takes a sign: on the one line \<^verbatim>\<open>memlock: -5\<close> it returns \<open>-5\<close> and no error.
\<close>

theorem parseMemlock_negative_counterexample:
  "parseMemlockFromFDInfoReader \<lparr>Scan_Text = [''memlock: -5''], Scan_Err = None\<rparr> =
     Return (Inr (- 5)) \<and>
   sint (- 5 :: go_int) < 0"
  by (simp add: parser_eval)

text \<open>
  Claim C5, amended: the parser reads line by line up to the first line that has at least
  two white-space separated fields and whose first field is the token \<^verbatim>\<open>memlock:\<close>; it
  returns the second field of that line read by \<^verbatim>\<open>strconv.Atoi\<close> (a decimal integer with an
  optional sign, in the range of \<^verbatim>\<open>int\<close>), or the wrapped error of \<^verbatim>\<open>Atoi\<close> when the field is
  not such an integer. When no line of the stream is such a line it fails: with the wrapped
  error of the scanner when the read failed, and with "didn't find memlock field"
  otherwise. On digits \<open>ds\<close>, \<open>Atoi\<close> gives the number \<open>decimal ds\<close> below \<open>2 ^ 63\<close>, and its
  negative down to \<open>- 2 ^ 63\<close> after a minus sign; the 64-bit result read as a signed number
  is that integer.
\<close>

theorem parseMemlock_contract:
  "((\<forall>l \<in> set pre. \<not> memlock_line l) \<longrightarrow> Fields line = ''memlock:'' # f1 # fs \<longrightarrow>
      parseMemlockFromFDInfoReader \<lparr>Scan_Text = pre @ line # rest, Scan_Err = e\<rparr> =
        Return (case Atoi f1 of
           Inl err \<Rightarrow> Inl (Errorf ''failed converting memlock to int: %w'' [] (Some err))
         | Inr memlock \<Rightarrow> Inr memlock)) \<and>
   ((\<forall>l \<in> set ls. \<not> memlock_line l) \<longrightarrow>
      parseMemlockFromFDInfoReader \<lparr>Scan_Text = ls, Scan_Err = e\<rparr> =
        Return (Inl (case e of
           Some err \<Rightarrow> Errorf ''failed to scan: %w'' [] (Some err)
         | None \<Rightarrow> Errorf ''didn't find memlock field'' [] None))) \<and>
   (ds \<noteq> [] \<and> list_all is_digit ds \<longrightarrow>
      Atoi ds =
        (if decimal ds < 2 ^ 63 then Inr (word_of_int (decimal ds))
         else Inl (NumError ''Atoi'' ds ErrRange)) \<and>
      Atoi (CHR ''-'' # ds) =
        (if decimal ds \<le> 2 ^ 63 then Inr (word_of_int (- decimal ds))
         else Inl (NumError ''Atoi'' (CHR ''-'' # ds) ErrRange)) \<and>
      (- (2 ^ 63) \<le> v \<and> v < 2 ^ 63 \<longrightarrow> sint (word_of_int v :: go_int) = v))"
proof (intro conjI impI)
  assume pre: "\<forall>l \<in> set pre. \<not> memlock_line l"
    and line: "Fields line = ''memlock:'' # f1 # fs"
  have "scan_loop (pre @ line # rest) = scan_loop (line # rest)"
    using pre by (rule scan_loop_append)
  then show "parseMemlockFromFDInfoReader \<lparr>Scan_Text = pre @ line # rest, Scan_Err = e\<rparr> =
        Return (case Atoi f1 of
           Inl err \<Rightarrow> Inl (Errorf ''failed converting memlock to int: %w'' [] (Some err))
         | Inr memlock \<Rightarrow> Inr memlock)"
    by (simp add: parseMemlockFromFDInfoReader_def scan_loop_hit [OF line]
        del: scan_loop.simps)
next
  assume ls: "\<forall>l \<in> set ls. \<not> memlock_line l"
  have "scan_loop ls = None"
    using scan_loop_append [OF ls, of "[]"] by simp
  then show "parseMemlockFromFDInfoReader \<lparr>Scan_Text = ls, Scan_Err = e\<rparr> =
        Return (Inl (case e of
           Some err \<Rightarrow> Errorf ''failed to scan: %w'' [] (Some err)
         | None \<Rightarrow> Errorf ''didn't find memlock field'' [] None))"
    by (simp add: parseMemlockFromFDInfoReader_def split: option.splits)
next
  assume "ds \<noteq> [] \<and> list_all is_digit ds"
  then show "Atoi ds =
        (if decimal ds < 2 ^ 63 then Inr (word_of_int (decimal ds))
         else Inl (NumError ''Atoi'' ds ErrRange))"
    by (simp add: Atoi_unsigned)
next
  assume "ds \<noteq> [] \<and> list_all is_digit ds"
  then show "Atoi (CHR ''-'' # ds) =
        (if decimal ds \<le> 2 ^ 63 then Inr (word_of_int (- decimal ds))
         else Inl (NumError ''Atoi'' (CHR ''-'' # ds) ErrRange))"
    by (simp add: Atoi_minus)
next
  assume "- (2 ^ 63) \<le> v \<and> v < 2 ^ 63"
  then show "sint (word_of_int v :: go_int) = v"
    by (simp add: sint_go_int)
qed

text \<open>
  The examples of the specification: the line \<^verbatim>\<open>memlock:    4096\<close> after another line gives
  4096; \<^verbatim>\<open>memlock: notanumber\<close> fails in \<^verbatim>\<open>Atoi\<close>; a stream without such a line fails, with
  the error of the read when there is one.
\<close>

theorem parseMemlock_contract_witness:
  "\<not> memlock_line ''pos: 0'' \<and>
   Fields ''memlock:    4096'' = [''memlock:'', ''4096''] \<and>
   parseMemlockFromFDInfoReader
     \<lparr>Scan_Text = [''pos: 0'', ''memlock:    4096'', ''mnt_id: 15''], Scan_Err = None\<rparr> =
     Return (Inr 4096) \<and>
   parseMemlockFromFDInfoReader
     \<lparr>Scan_Text = [''pos: 0'', ''memlock: notanumber''], Scan_Err = None\<rparr> =
     Return (Inl (Errorf ''failed converting memlock to int: %w'' []
       (Some (NumError ''Atoi'' ''notanumber'' ErrSyntax)))) \<and>
   parseMemlockFromFDInfoReader \<lparr>Scan_Text = [''pos: 0''], Scan_Err = None\<rparr> =
     Return (Inl (Errorf ''didn't find memlock field'' [] None)) \<and>
   parseMemlockFromFDInfoReader \<lparr>Scan_Text = [''pos: 0''], Scan_Err = Some (Errno 5)\<rparr> =
     Return (Inl (Errorf ''failed to scan: %w'' [] (Some (Errno 5)))) \<and>
   list_all is_digit ''4096'' \<and> decimal ''4096'' = 4096 \<and>
   Atoi ''4096'' = Inr 4096 \<and> Atoi ''-4096'' = Inr (- 4096) \<and>
   sint (- 4096 :: go_int) = - 4096"
proof -
  have pre: "\<forall>l \<in> set [''pos: 0'']. \<not> memlock_line l"
    by (simp add: parser_eval)
  have f1: "Fields ''memlock:    4096'' = ''memlock:'' # ''4096'' # []"
    by (simp add: parser_eval)
  have f2: "Fields ''memlock: notanumber'' = ''memlock:'' # ''notanumber'' # []"
    by (simp add: parser_eval)
  note c = parseMemlock_contract
  have "parseMemlockFromFDInfoReader
     \<lparr>Scan_Text = [''pos: 0''] @ ''memlock:    4096'' # [''mnt_id: 15''], Scan_Err = None\<rparr> =
     Return (Inr 4096)"
    using c [of "[''pos: 0'']" "''memlock:    4096''" "''4096''" "[]" "[''mnt_id: 15'']" None]
      pre f1 by (simp add: Atoi_def is_digit_def)
  moreover have "parseMemlockFromFDInfoReader
     \<lparr>Scan_Text = [''pos: 0''] @ ''memlock: notanumber'' # [], Scan_Err = None\<rparr> =
     Return (Inl (Errorf ''failed converting memlock to int: %w'' []
       (Some (NumError ''Atoi'' ''notanumber'' ErrSyntax))))"
    using c [of "[''pos: 0'']" "''memlock: notanumber''" "''notanumber''" "[]" "[]" None]
      pre f2 by (simp add: Atoi_def is_digit_def)
  moreover have "parseMemlockFromFDInfoReader \<lparr>Scan_Text = [''pos: 0''], Scan_Err = None\<rparr> =
     Return (Inl (Errorf ''didn't find memlock field'' [] None))"
    using c [of "[]" "[]" "[]" "[]" "[]" None "[''pos: 0'']"] pre by simp
  moreover have
    "parseMemlockFromFDInfoReader \<lparr>Scan_Text = [''pos: 0''], Scan_Err = Some (Errno 5)\<rparr> =
     Return (Inl (Errorf ''failed to scan: %w'' [] (Some (Errno 5))))"
    using c [of "[]" "[]" "[]" "[]" "[]" "Some (Errno 5)" "[''pos: 0'']"] pre by simp
  moreover have dg: "list_all is_digit ''4096''" and dv: "decimal ''4096'' = 4096"
    by (simp_all add: is_digit_def decimal_def decimal_from_def)
  moreover have "Atoi ''4096'' = Inr 4096" and "Atoi ''-4096'' = Inr (- 4096)"
    and "sint (- 4096 :: go_int) = - 4096"
    using c [of "[]" "[]" "[]" "[]" "[]" None "[]" "''4096''" "- 4096"] dg dv by simp_all
  ultimately show ?thesis
    using pre f1 by simp
qed

text \<open>
  Claim C10: a line whose only field is \<^verbatim>\<open>memlock:\<close> is passed over, wherever it stands in
  the stream: the result is that of the stream without the line. The guard
  \<^verbatim>\<open>len(fields) > 1\<close> keeps both index expressions in range, so the parser never panics,
  and it returns a value or an error on every stream.
\<close>

theorem lone_memlock_line_skipped:
  assumes "Fields line = [''memlock:'']"
  shows "parseMemlockFromFDInfoReader \<lparr>Scan_Text = pre @ line # rest, Scan_Err = e\<rparr> =
           parseMemlockFromFDInfoReader \<lparr>Scan_Text = pre @ rest, Scan_Err = e\<rparr> \<and>
         parseMemlockFromFDInfoReader r \<noteq> Panic \<and>
         (\<exists>ret. parseMemlockFromFDInfoReader r = Return ret)"
proof -
  from assms have "\<not> memlock_line line"
    by (simp add: memlock_line_def)
  then have "scan_loop (pre @ line # rest) = scan_loop (pre @ rest)"
    by (rule scan_loop_skip_inside)
  then have "parseMemlockFromFDInfoReader \<lparr>Scan_Text = pre @ line # rest, Scan_Err = e\<rparr> =
           parseMemlockFromFDInfoReader \<lparr>Scan_Text = pre @ rest, Scan_Err = e\<rparr>"
    by (simp add: parseMemlockFromFDInfoReader_def split: option.splits)
  moreover have np: "parseMemlockFromFDInfoReader r \<noteq> Panic"
    using scan_loop_no_panic [of "Scan_Text r"]
    by (auto simp: parseMemlockFromFDInfoReader_def split: option.splits)
  moreover have "\<exists>ret. parseMemlockFromFDInfoReader r = Return ret"
    using np by (cases "parseMemlockFromFDInfoReader r") simp_all
  ultimately show ?thesis
    by blast
qed

theorem lone_memlock_line_skipped_witness:
  "Fields ''memlock:'' = [''memlock:''] \<and>
   parseMemlockFromFDInfoReader
     \<lparr>Scan_Text = [''pos: 0'', ''memlock:'', ''memlock: 4096''], Scan_Err = None\<rparr> =
     Return (Inr 4096) \<and>
   parseMemlockFromFDInfoReader \<lparr>Scan_Text = [''memlock:''], Scan_Err = None\<rparr> =
     Return (Inl (Errorf ''didn't find memlock field'' [] None))"
proof -
  have f: "Fields ''memlock:'' = [''memlock:'']"
    by (simp add: parser_eval)
  note s = lone_memlock_line_skipped [OF f]
  have "parseMemlockFromFDInfoReader
     \<lparr>Scan_Text = [''pos: 0''] @ ''memlock:'' # [''memlock: 4096''], Scan_Err = None\<rparr> =
     Return (Inr 4096)"
    using s [of "[''pos: 0'']" "[''memlock: 4096'']" None] by (simp add: parser_eval)
  moreover have
    "parseMemlockFromFDInfoReader \<lparr>Scan_Text = [] @ ''memlock:'' # [], Scan_Err = None\<rparr> =
     Return (Inl (Errorf ''didn't find memlock field'' [] None))"
    using s [of "[]" "[]" None] by (simp add: parser_eval)
  ultimately show ?thesis
    using f by simp
qed

subsection \<open>Aggregation by name\<close>

lemma TotalByteMemlock_fold:
  "fold (\<lambda>info sum. sum + Memlock info) infos a = a + sum_list (map Memlock infos)"
  by (induction infos arbitrary: a) (simp_all add: add.assoc)

lemma TotalByteMemlock_sum: "TotalByteMemlock infos = sum_list (map Memlock infos)"
  by (simp add: TotalByteMemlock_def TotalByteMemlock_fold)

lemma sum_insert_sorted:
  fixes f :: "'a \<Rightarrow> go_int"
  shows "sum_list (map f (insert_sorted lt x ys)) = f x + sum_list (map f ys)"
  by (induction ys) (simp_all add: ac_simps)

lemma sum_sort_Slice:
  fixes f :: "'a \<Rightarrow> go_int"
  shows "sum_list (map f (sort_Slice lt xs)) = sum_list (map f xs)"
  by (induction xs) (simp_all add: sort_Slice_def sum_insert_sorted)

text \<open>Writing a key of a map changes the sum over its values by the new value less the old.\<close>

lemma sum_AList_update:
  fixes f :: "'v \<Rightarrow> go_int"
  shows "sum_list (map (\<lambda>p. f (snd p)) (AList.update k v al)) =
     (case map_of al k of
        None \<Rightarrow> sum_list (map (\<lambda>p. f (snd p)) al) + f v
      | Some old \<Rightarrow> sum_list (map (\<lambda>p. f (snd p)) al) - f old + f v)"
  by (induction al) (auto split: option.splits)

lemma sum_Values_update:
  fixes f :: "'v \<Rightarrow> go_int"
  shows "sum_list (map f (Values (DAList.update k v s))) =
     (case DAList.lookup s k of
        None \<Rightarrow> sum_list (map f (Values s)) + f v
      | Some old \<Rightarrow> sum_list (map f (Values s)) - f old + f v)"
  using sum_AList_update [of f k v "DAList.impl_of s"]
  by (simp add: Values_def range_map_def DAList.update.rep_eq DAList.lookup.rep_eq comp_def
      split: option.splits)

lemma aggregate_step_sum:
  "aggregate_step m (t, s) = (t', s') \<Longrightarrow>
   t' = t + Memlock m \<and>
   sum_list (map Memlock (Values s')) = sum_list (map Memlock (Values s)) + Memlock m"
  by (auto simp: aggregate_step_def sum_Values_update ExtendedMapInfo.defs MapInfo.defs
      aggregated.defs split: option.splits)

lemma aggregate_fold_sum:
  "fold (\<lambda>(_, m) st. aggregate_step m st) xs (t, s) = (t', s') \<Longrightarrow>
   t' = t + sum_list (map (\<lambda>p. Memlock (snd p)) xs) \<and>
   sum_list (map Memlock (Values s')) =
     sum_list (map Memlock (Values s)) + sum_list (map (\<lambda>p. Memlock (snd p)) xs)"
proof (induction xs arbitrary: t s)
  case Nil
  then show ?case by simp
next
  case (Cons x xs)
  obtain i m where x: "x = (i, m)" by (cases x)
  obtain t1 s1 where st: "aggregate_step m (t, s) = (t1, s1)"
    by (cases "aggregate_step m (t, s)")
  from Cons.prems have "fold (\<lambda>(_, m) st. aggregate_step m st) xs (t1, s1) = (t', s')"
    by (simp add: x st)
  from Cons.IH [OF this] aggregate_step_sum [OF st] show ?case
    by (simp add: x add.assoc)
qed

lemma aggregate_maps_sum:
  "sum_list (map TotalMemlock (aggregate_maps k u)) = TotalByteMemlock (Values u)"
proof -
  obtain t s where
    f: "fold (\<lambda>(_, m) st. aggregate_step m st) (range_map u) (0, DAList.empty) = (t, s)"
    by (cases "fold (\<lambda>(_, m) st. aggregate_step m st) (range_map u) (0, DAList.empty)")
  from aggregate_fold_sum [OF f]
  have "sum_list (map Memlock (Values s)) = sum_list (map (\<lambda>p. Memlock (snd p)) (range_map u))"
    by (simp add: Values_def range_map_def DAList.empty.rep_eq)
  then show ?thesis
    by (simp add: aggregate_maps_def f comp_def sum_sort_Slice TotalByteMemlock_sum Values_def)
qed

lemmas report_eval =
  map_record_def hash_info_def ExtendedMapInfo_of_def MapInfo.defs ExtendedMapInfo.defs
  aggregated.defs DAList.update.rep_eq DAList.empty.rep_eq DAList.lookup.rep_eq range_map_def
  Values_def exists_key_def union_def diff_def inter_def exter_def Let_def aggregate_maps_def
  aggregate_step_def sort_Slice_def TotalByteMemlock_def empty_kernel_def MapType_name_def
  len_def len_map_def build_report_def

text \<open>
  Claim C7: the \<open>TotalMemlock\<close> of the aggregated entries add up to the memlock of the
  records of the union, for every union collection (sums are those of Go's \<^verbatim>\<open>int\<close>, as
  \<^verbatim>\<open>TotalByteMemlock\<close> computes them); and in every report that is built the entries of
  \<open>AggregatedMaps\<close> add up to the memlock of the union of the pinned maps and the maps of
  the pinned programs, keyed by ID.
\<close>

theorem aggregated_total_memlock:
  "sum_list (map TotalMemlock (aggregate_maps k union_set)) =
     TotalByteMemlock (Values union_set) \<and>
   (build_report k allMaps pinnedProgsMaps pinnedMaps = Inr out \<longrightarrow>
     (\<exists>pinnedProgsMapsSet pinnedMapsSet.
        key_by_ID ''failed retrieving progs ID, need >= 4.13, kernel is too old''
          pinnedProgsMaps DAList.empty = Inr pinnedProgsMapsSet \<and>
        key_by_ID ''failed retrieving map ID, need >= 4.13, kernel is too old''
          pinnedMaps DAList.empty = Inr pinnedMapsSet \<and>
        sum_list (map TotalMemlock (AggregatedMaps out)) =
          TotalByteMemlock (Values (union pinnedMapsSet pinnedProgsMapsSet))))"
proof (intro conjI impI)
  show "sum_list (map TotalMemlock (aggregate_maps k union_set)) =
     TotalByteMemlock (Values union_set)"
    by (rule aggregate_maps_sum)
next
  assume r: "build_report k allMaps pinnedProgsMaps pinnedMaps = Inr out"
  then obtain pps pms where
    pps: "key_by_ID ''failed retrieving progs ID, need >= 4.13, kernel is too old''
          pinnedProgsMaps DAList.empty = Inr pps"
    and pms: "key_by_ID ''failed retrieving map ID, need >= 4.13, kernel is too old''
          pinnedMaps DAList.empty = Inr pms"
    by (auto simp: build_report_def split: sum.splits)
  from r have "AggregatedMaps out = aggregate_maps k (union pms pps)"
    by (auto simp: build_report_def pps pms Let_def split: sum.splits)
  then have "sum_list (map TotalMemlock (AggregatedMaps out)) =
          TotalByteMemlock (Values (union pms pps))"
    by (simp add: aggregate_maps_sum)
  with pps pms show "\<exists>pinnedProgsMapsSet pinnedMapsSet.
        key_by_ID ''failed retrieving progs ID, need >= 4.13, kernel is too old''
          pinnedProgsMaps DAList.empty = Inr pinnedProgsMapsSet \<and>
        key_by_ID ''failed retrieving map ID, need >= 4.13, kernel is too old''
          pinnedMaps DAList.empty = Inr pinnedMapsSet \<and>
        sum_list (map TotalMemlock (AggregatedMaps out)) =
          TotalByteMemlock (Values (union pinnedMapsSet pinnedProgsMapsSet))"
    by blast
qed

text \<open>
  Two pinned maps (IDs 1 and 2) and two maps of pinned programs (IDs 2 and 3), two of the
  three names equal: the report has the entries \<open>execve_map\<close> (two instances, 12288
  bytes) and \<open>tcpmon_map\<close> (one instance, 100 bytes), which add up to the 12388 bytes of
  the three maps of the union.
\<close>

theorem aggregated_total_memlock_witness:
  "(\<exists>out. build_report empty_kernel []
       [map_record 2 ''execve_map'' 8192, map_record 3 ''tcpmon_map'' 100]
       [map_record 1 ''execve_map'' 4096, map_record 2 ''execve_map'' 8192] = Inr out \<and>
     map (\<lambda>a. (Agg_Name a, Count a, TotalMemlock a)) (AggregatedMaps out) =
       [(''execve_map'', 2, 12288), (''tcpmon_map'', 1, 100)] \<and>
     sum_list (map TotalMemlock (AggregatedMaps out)) = 12388) \<and>
   TotalByteMemlock (Values (union
     (DAList.update 2 (map_record 2 ''execve_map'' 8192)
        (DAList.update 1 (map_record 1 ''execve_map'' 4096) DAList.empty))
     (DAList.update 3 (map_record 3 ''tcpmon_map'' 100)
        (DAList.update 2 (map_record 2 ''execve_map'' 8192) DAList.empty)))) = 12388"
proof -
  define pms :: "ExtendedMapInfo go_map" where "pms =
     DAList.update 2 (map_record 2 ''execve_map'' 8192)
        (DAList.update 1 (map_record 1 ''execve_map'' 4096) DAList.empty)"
  define pps :: "ExtendedMapInfo go_map" where "pps =
     DAList.update 3 (map_record 3 ''tcpmon_map'' 100)
        (DAList.update 2 (map_record 2 ''execve_map'' 8192) DAList.empty)"
  have tot: "TotalByteMemlock (Values (union pms pps)) = 12388"
    by (simp add: pms_def pps_def report_eval)
  have agg: "AggregatedMaps (projr (build_report empty_kernel []
       [map_record 2 ''execve_map'' 8192, map_record 3 ''tcpmon_map'' 100]
       [map_record 1 ''execve_map'' 4096, map_record 2 ''execve_map'' 8192])) =
      aggregate_maps empty_kernel (union pms pps)"
    by (simp add: pms_def pps_def build_report_def Let_def map_record_def hash_info_def
        ExtendedMapInfo_of_def MapInfo.defs ExtendedMapInfo.defs Values_def range_map_def
        DAList.update.rep_eq DAList.empty.rep_eq DAList.lookup.rep_eq exists_key_def diff_def)
  have isr: "isl (build_report empty_kernel []
       [map_record 2 ''execve_map'' 8192, map_record 3 ''tcpmon_map'' 100]
       [map_record 1 ''execve_map'' 4096, map_record 2 ''execve_map'' 8192]) = False"
    by (simp add: build_report_def Let_def map_record_def hash_info_def
        ExtendedMapInfo_of_def MapInfo.defs ExtendedMapInfo.defs Values_def range_map_def
        DAList.update.rep_eq DAList.empty.rep_eq DAList.lookup.rep_eq exists_key_def diff_def)
  have names: "map (\<lambda>a. (Agg_Name a, Count a, TotalMemlock a))
      (aggregate_maps empty_kernel (union pms pps)) =
       [(''execve_map'', 2, 12288), (''tcpmon_map'', 1, 100)]"
    by (simp add: pms_def pps_def report_eval)
  have "sum_list (map TotalMemlock (aggregate_maps empty_kernel (union pms pps))) = 12388"
    using aggregated_total_memlock [of empty_kernel "union pms pps"] tot by simp
  with agg isr names tot show ?thesis
    unfolding pms_def pps_def
    by (cases "build_report empty_kernel []
       [map_record 2 ''execve_map'' 8192, map_record 3 ''tcpmon_map'' 100]
       [map_record 1 ''execve_map'' 4096, map_record 2 ''execve_map'' 8192]") simp_all
qed

subsection \<open>The descriptors of the process\<close>

text \<open>
  The number given to a file that is opened is not in the table, so that closing it
  restores the table as it was, and what \<^verbatim>\<open>/proc/self/fd\<close> and \<^verbatim>\<open>/proc/self/fdinfo\<close> show under
  that number is what the descriptor just opened shows.
\<close>

lemma lowest_free_from_fresh:
  "card (set used \<inter> {n..}) \<le> fuel \<Longrightarrow> lowest_free_from fuel n used \<notin> set used"
proof (induction fuel arbitrary: n)
  case 0
  then have "set used \<inter> {n..} = {}" by simp
  then show ?case by auto
next
  case (Suc fuel)
  show ?case
  proof (cases "n \<in> set used")
    case True
    have "set used \<inter> {n..} = insert n (set used \<inter> {Suc n..})"
      using True by auto
    moreover have "n \<notin> set used \<inter> {Suc n..}" by simp
    ultimately have "card (set used \<inter> {n..}) = Suc (card (set used \<inter> {Suc n..}))"
      by simp
    with Suc.prems have "card (set used \<inter> {Suc n..}) \<le> fuel" by simp
    from Suc.IH [OF this] True show ?thesis by simp
  next
    case False
    then show ?thesis by simp
  qed
qed

lemma lowest_free_fresh: "lowest_free tbl \<notin> fst ` set tbl"
proof -
  have "card (set (map fst tbl) \<inter> {0..}) \<le> card (set (map fst tbl))"
    by (intro card_mono) auto
  also have "\<dots> \<le> length tbl"
    using card_length [of "map fst tbl"] by simp
  finally show ?thesis
    using lowest_free_from_fresh [of "map fst tbl" 0 "length tbl"]
    by (simp add: lowest_free_def)
qed

lemma close_opened: "close_fd (lowest_free tbl) ((lowest_free tbl, e) # tbl) = tbl"
  by (simp add: close_fd_def lowest_free_fresh)

lemma Readlink_opened: "Readlink_fd ((fd, e) # tbl) fd = Link e"
  by (simp add: Readlink_fd_def)

lemma Open_fdinfo_opened: "Open_fdinfo ((fd, e) # tbl) fd = Fdinfo e"
  by (simp add: Open_fdinfo_def)

lemma Map_FD_open_map: "Map_FD (fst (open_map obj tbl)) = lowest_free tbl"
  by (simp add: open_map_def MapObject.defs Map.defs)

lemma lowest_free_process_fds: "lowest_free process_fds = 11"
  by (simp add: process_fds_def lowest_free_def)

lemma open_map_cases:
  obtains m where "open_map obj tbl = (m, (lowest_free tbl, Map_entry obj) # tbl)"
    and "Map_FD m = lowest_free tbl" and "Map_Info m = Map_Info obj"
    and "Map_Type m = Map_Type obj" and "Map_Iterate m = Map_Iterate obj"
  by (simp add: open_map_def MapObject.defs Map.defs)

lemma open_program_cases:
  obtains p where "open_program obj tbl = (p, (lowest_free tbl, Program_entry obj) # tbl)"
    and "Program_FD p = lowest_free tbl" and "Program_Info p = Program_Info obj"
  by (simp add: open_program_def ProgramObject.defs Program.defs)

lemma close_below_opened:
  "close_fd (lowest_free tbl) ((fd, e') # (lowest_free tbl, e) # tbl) =
     (if fd = lowest_free tbl then tbl else (fd, e') # tbl)"
  by (simp add: close_fd_def lowest_free_fresh)

lemma lowest_free_above: "lowest_free ((fd, e) # tbl) \<noteq> fd"
  using lowest_free_fresh [of "(fd, e) # tbl"] by auto

lemma lowest_free_not_below: "lowest_free ((fd, e) # tbl) \<notin> fst ` set tbl"
  using lowest_free_fresh [of "(fd, e) # tbl"] by auto

lemma close_other_opened:
  "fd \<notin> fst ` set tbl \<Longrightarrow> close_fd fd ((fd, e) # tbl) = tbl"
  by (simp add: close_fd_def)

subsection \<open>The map enumerator\<close>

lemma FindAllMaps_loop_steps:
  "cursor_yields k tbl prev steps \<Longrightarrow>
   \<exists>deferred' log'.
     FindAllMaps_loop k prev acc deferred log tbl =
     FindAllMaps_loop k (last (prev # map fst steps)) (acc @ records_of steps) deferred' log'
       (table_after tbl steps)"
proof (induction steps arbitrary: prev acc deferred log tbl)
  case Nil
  show ?case by (auto simp: records_of_def)
next
  case (Cons s steps)
  obtain i obj info memlock where s: "s = (i, obj, info, memlock)" by (cases s)
  obtain m tbl' where o: "open_map obj tbl = (m, tbl')" by (cases "open_map obj tbl")
  from Cons.prems have step: "MapGetNextID k prev = Inr i" "NewMapFromID k i = Inr obj"
    "Map_Info obj = Inr info" "parseMemlockFromFDInfo tbl' (Map_FD m) = Return (Inr memlock)"
    and rest: "cursor_yields k tbl' i steps"
    by (simp_all add: s o)
  have mi: "Map_Info m = Inr info"
    using o step(3) by (auto simp: open_map_def MapObject.defs Map.defs)
  have "FindAllMaps_loop k prev acc deferred log tbl =
        FindAllMaps_loop k i (acc @ [ExtendedMapInfo_of info memlock]) (m # deferred)
          (log @ [EvNextID prev, EvOpen (Map_FD m)]) tbl'"
    by (subst FindAllMaps_loop.simps) (simp add: step o mi)
  moreover from Cons.IH [OF rest] obtain d' l' where
    "FindAllMaps_loop k i (acc @ [ExtendedMapInfo_of info memlock]) (m # deferred)
          (log @ [EvNextID prev, EvOpen (Map_FD m)]) tbl' =
     FindAllMaps_loop k (last (i # map fst steps))
       ((acc @ [ExtendedMapInfo_of info memlock]) @ records_of steps) d' l'
       (table_after tbl' steps)"
    by blast
  ultimately show ?case
    by (auto simp: s o records_of_def)
qed

text \<open>
  When the enumerator returns, every descriptor it opened is closed: the table is the one
  it started from.
\<close>

lemma leave_restores:
  "fold (\<lambda>m tbl. close_fd (Map_FD m) tbl) deferred tbl = tbl0 \<Longrightarrow>
   leave deferred log tbl ret = (ret, log @ map (\<lambda>m. EvClose (Map_FD m)) deferred, tbl0)"
  by (simp add: leave_def)

lemma FindAllMaps_loop_restores:
  assumes "FindAllMaps_loop k prev acc deferred log tbl = Some y"
  shows "snd (snd y) = fold (\<lambda>m tbl. close_fd (Map_FD m) tbl) deferred tbl"
  using assms
proof (induction k prev acc deferred log tbl y
    rule: FindAllMaps_loop.raw_induct [rotated 1, consumes 1, case_names step])
  case (step loop k mapID mapInfos deferred log tbl y)
  show ?case
  proof (cases "MapGetNextID k mapID")
    case (Inl err)
    with step(2) show ?thesis by (auto simp: leave_def split: if_splits)
  next
    case (Inr mapID')
    note next_id = this
    show ?thesis
    proof (cases "NewMapFromID k mapID'")
      case (Inl err)
      with step(2) next_id show ?thesis by (auto simp: leave_def)
    next
      case (Inr obj)
      obtain m where o: "open_map obj tbl = (m, (lowest_free tbl, Map_entry obj) # tbl)"
        and fd: "Map_FD m = lowest_free tbl"
        by (rule open_map_cases)
      let ?tbl = "(lowest_free tbl, Map_entry obj) # tbl"
      have reopen: "fold (\<lambda>m tbl. close_fd (Map_FD m) tbl) (m # deferred) ?tbl =
          fold (\<lambda>m tbl. close_fd (Map_FD m) tbl) deferred tbl"
        by (simp add: fd close_opened)
      from step(2) next_id Inr o consider
        (left) l r where "y = leave (m # deferred) l ?tbl r"
        | (again) info memlock l where
          "loop k mapID' (mapInfos @ [ExtendedMapInfo_of info memlock]) (m # deferred) l ?tbl
             = Some y"
        by (auto split: sum.splits outcome.splits)
      then show ?thesis
      proof cases
        case left
        then show ?thesis using reopen by (simp add: leave_def)
      next
        case again
        from step(1) [OF this] reopen show ?thesis by simp
      qed
    qed
  qed
qed

lemma FindAllMaps_log_restores:
  "FindAllMaps_log k tbl = Some (ret, log, tbl') \<Longrightarrow> tbl' = tbl"
  using FindAllMaps_loop_restores [of k 0 "[]" "[]" "[]" tbl "(ret, log, tbl')"]
  by (simp add: FindAllMaps_log_def)

lemma FindAllMaps_after_steps:
  assumes "cursor_yields k tbl 0 steps"
  obtains deferred log where
    "FindAllMaps_log k tbl =
       FindAllMaps_loop k (last (0 # map fst steps)) (records_of steps) deferred log
         (table_after tbl steps)"
  using FindAllMaps_loop_steps [OF assms, of "[]" "[]" "[]"]
  by (auto simp: FindAllMaps_log_def)

lemma FindAllMaps_from_log:
  "FindAllMaps_log k tbl = Some (ret, log, tbl') \<Longrightarrow> FindAllMaps k tbl = Some (ret, tbl)"
  using FindAllMaps_log_restores [of k tbl ret log tbl'] by (simp add: FindAllMaps_def)

text \<open>
  Claim C4. Let the cursor return the IDs of \<open>steps\<close>, each of them opening and giving its
  metadata and memlock, and let \<open>c\<close> be the last of them (0 when there is none). If the next
  reply of the cursor is ENOENT (wrapped or not) the enumeration succeeds with exactly the
  records of \<open>steps\<close>, in the order of the cursor. If the next reply is another error, or the
  next ID does not open, or its metadata cannot be read, or its memlock cannot be parsed,
  the enumeration returns the wrapped error and no list. In every case the enumeration
  returns, and the descriptor table is as it was before the call.
\<close>

theorem FindAllMaps_termination_and_errors:
  assumes "cursor_yields k tbl 0 steps" and "c = last (0 # map fst steps)"
    and "t = table_after tbl steps"
  shows
    "(MapGetNextID k c = Inl err \<and> errors_Is err ENOENT \<longrightarrow>
        FindAllMaps k tbl = Some (Return (Inr (records_of steps)), tbl)) \<and>
     (MapGetNextID k c = Inl err \<and> \<not> errors_Is err ENOENT \<longrightarrow>
        FindAllMaps k tbl = Some (Return (Inl
          (Errorf ''didn't receive ENOENT at the end of iteration: %w'' [] (Some err))), tbl)) \<and>
     (MapGetNextID k c = Inr j \<and> NewMapFromID k j = Inl err \<longrightarrow>
        FindAllMaps k tbl = Some (Return (Inl
          (Errorf ''failed to retrieve map from ID: %w'' [] (Some err))), tbl)) \<and>
     (MapGetNextID k c = Inr j \<and> NewMapFromID k j = Inr obj \<and> Map_Info obj = Inl err \<longrightarrow>
        FindAllMaps k tbl = Some (Return (Inl
          (Errorf ''failed to retrieve map info: %w'' [] (Some err))), tbl)) \<and>
     (MapGetNextID k c = Inr j \<and> NewMapFromID k j = Inr obj \<and> Map_Info obj = Inr info \<and>
      parseMemlockFromFDInfo (snd (open_map obj t)) (Map_FD (fst (open_map obj t))) =
        Return (Inl err) \<longrightarrow>
        FindAllMaps k tbl = Some (Return (Inl
          (Errorf ''failed parsing fdinfo to retrieve memlock: %w'' [] (Some err))), tbl))"
proof -
  from assms obtain deferred log where
    run: "FindAllMaps_log k tbl = FindAllMaps_loop k c (records_of steps) deferred log t"
    using FindAllMaps_after_steps [of k tbl steps] by auto
  obtain m where o: "open_map obj t = (m, (lowest_free t, Map_entry obj) # t)"
    and mi: "Map_Info m = Map_Info obj"
    by (rule open_map_cases)
  have fin: "FindAllMaps k tbl = Some (ret, tbl)"
    if "FindAllMaps_loop k c (records_of steps) deferred log t = Some (leave d l t' ret)"
    for d l t' ret
    using that FindAllMaps_from_log [of k tbl ret] unfolding run
    by (simp add: leave_def)
  show ?thesis
    by (intro conjI impI; rule fin; subst FindAllMaps_loop.simps)
      (auto simp: o mi)
qed

lemmas kernel_eval =
  three_maps_def cursor_fails_def empty_kernel_def ENOENT_def parseMemlockFromFDInfo_def
  Open_fdinfo_def Readlink_fd_def parser_eval leave_def hash_info_def map_record_def
  hash_map_def map_fd_def prog_fd_def other_fd_def no_entries_def process_fds_def
  open_map_def open_program_def lowest_free_def close_fd_def MapObject.defs Map.defs
  ProgramObject.defs Program.defs ExtendedMapInfo_of_def MapInfo.defs ExtendedMapInfo.defs

text \<open>
  The examples of the specification: a cursor that returns the IDs 1, 2, 3 and then not-found
  gives exactly three records, with the IDs 1, 2, 3 in this order; a cursor that fails on
  its second call gives an error and no record.
\<close>

theorem FindAllMaps_termination_and_errors_witness:
  "cursor_yields three_maps process_fds 0
     [(1, hash_map 1, hash_info 1 ''execve_map'', 4096),
      (2, hash_map 2, hash_info 2 ''execve_map'', 4096),
      (3, hash_map 3, hash_info 3 ''execve_map'', 4096)] \<and>
   MapGetNextID three_maps 3 = Inl ENOENT \<and>
   FindAllMaps three_maps process_fds =
     Some (Return (Inr [map_record 1 ''execve_map'' 4096, map_record 2 ''execve_map'' 4096,
       map_record 3 ''execve_map'' 4096]), process_fds) \<and>
   cursor_yields cursor_fails process_fds 0 [(1, hash_map 1, hash_info 1 ''execve_map'', 4096)] \<and>
   MapGetNextID cursor_fails 1 = Inl (Errno 1) \<and>
   FindAllMaps cursor_fails process_fds =
     Some (Return (Inl (Errorf ''didn't receive ENOENT at the end of iteration: %w'' []
       (Some (Errno 1)))), process_fds)"
proof -
  define steps where "steps =
     [(1::MapID, hash_map 1, hash_info 1 ''execve_map'', 4096::go_int),
      (2, hash_map 2, hash_info 2 ''execve_map'', 4096),
      (3, hash_map 3, hash_info 3 ''execve_map'', 4096)]"
  have y3: "cursor_yields three_maps process_fds 0 steps"
    by (simp add: steps_def kernel_eval)
  have e3: "MapGetNextID three_maps 3 = Inl ENOENT"
    by (simp add: kernel_eval)
  have "FindAllMaps three_maps process_fds = Some (Return (Inr (records_of steps)), process_fds)"
    using FindAllMaps_termination_and_errors [OF y3, of 3 _ ENOENT] e3
    by (simp add: steps_def ENOENT_def)
  then have r3: "FindAllMaps three_maps process_fds =
     Some (Return (Inr [map_record 1 ''execve_map'' 4096, map_record 2 ''execve_map'' 4096,
       map_record 3 ''execve_map'' 4096]), process_fds)"
    by (simp add: steps_def records_of_def map_record_def)
  have y1: "cursor_yields cursor_fails process_fds 0
      [(1, hash_map 1, hash_info 1 ''execve_map'', 4096)]"
    by (simp add: kernel_eval)
  have e1: "MapGetNextID cursor_fails 1 = Inl (Errno 1)"
    by (simp add: kernel_eval)
  have r1: "FindAllMaps cursor_fails process_fds =
     Some (Return (Inl (Errorf ''didn't receive ENOENT at the end of iteration: %w'' []
       (Some (Errno 1)))), process_fds)"
    using FindAllMaps_termination_and_errors [OF y1, of 1 _ "Errno 1"] e1
    by (simp add: ENOENT_def)
  from y3 e3 r3 y1 e1 r1 show ?thesis
    by (simp add: steps_def)
qed

text \<open>
  Every handle that the enumerator opens is closed once, when the function returns and in
  the reverse order of opening: the log of a run is a body without any close, followed by
  the closes of all the handles the body opened.
\<close>

lemma opens_append: "opens (xs @ ys) = opens xs @ opens ys"
  by (induction xs rule: opens.induct) simp_all

lemma closes_append: "closes (xs @ ys) = closes xs @ closes ys"
  by (induction xs rule: closes.induct) simp_all

lemma FindAllMaps_loop_closes_at_return:
  assumes "FindAllMaps_loop k prev acc deferred log tbl = Some y"
  shows "closes log = [] \<and> map Map_FD deferred = rev (opens log) \<longrightarrow>
         (\<exists>body. fst (snd y) = body @ map EvClose (rev (opens body)) \<and> closes body = [])"
  using assms
proof (induction k prev acc deferred log tbl y
    rule: FindAllMaps_loop.raw_induct [rotated 1, consumes 1, case_names step])
  case (step loop k mapID mapInfos deferred log tbl y)
  have leave_body: "\<exists>body. fst (snd (leave d l t r)) = body @ map EvClose (rev (opens body)) \<and>
      closes body = []"
    if "closes l = []" and "map Map_FD d = rev (opens l)" for d l t and r :: "'r"
  proof -
    have "fst (snd (leave d l t r)) = l @ map EvClose (rev (opens l))"
      using that(2) by (simp add: leave_def flip: map_map [unfolded comp_def])
    with that(1) show ?thesis by blast
  qed
  show ?case
  proof (intro impI, elim conjE)
    assume c: "closes log = []" and d: "map Map_FD deferred = rev (opens log)"
    show "\<exists>body. fst (snd y) = body @ map EvClose (rev (opens body)) \<and> closes body = []"
    proof (cases "MapGetNextID k mapID")
      case (Inl err)
      with step(2) have
        "y = leave deferred (log @ [EvNextID mapID]) tbl (Return (Inr mapInfos)) \<or>
         y = leave deferred (log @ [EvNextID mapID]) tbl (Return (Inl
          (Errorf ''didn't receive ENOENT at the end of iteration: %w'' [] (Some err))))"
        by (auto split: if_splits)
      then show ?thesis
        using leave_body [of "log @ [EvNextID mapID]" deferred] c d
        by (auto simp: opens_append closes_append)
    next
      case (Inr mapID')
      note next_id = this
      show ?thesis
      proof (cases "NewMapFromID k mapID'")
        case (Inl err)
        with step(2) next_id have "y = leave deferred (log @ [EvNextID mapID]) tbl (Return (Inl
          (Errorf ''failed to retrieve map from ID: %w'' [] (Some err))))"
          by simp
        then show ?thesis
          using leave_body [of "log @ [EvNextID mapID]" deferred] c d
          by (auto simp: opens_append closes_append)
      next
        case (Inr obj)
        obtain m where o: "open_map obj tbl = (m, (lowest_free tbl, Map_entry obj) # tbl)"
          by (rule open_map_cases)
        let ?log = "log @ [EvNextID mapID, EvOpen (Map_FD m)]"
        let ?tbl = "(lowest_free tbl, Map_entry obj) # tbl"
        have c': "closes ?log = []" and d': "map Map_FD (m # deferred) = rev (opens ?log)"
          using c d by (simp_all add: opens_append closes_append)
        from step(2) next_id Inr o consider
          (left) r where "y = leave (m # deferred) ?log ?tbl r"
          | (again) info memlock where
            "loop k mapID' (mapInfos @ [ExtendedMapInfo_of info memlock]) (m # deferred) ?log
               ?tbl = Some y"
          by (auto split: sum.splits outcome.splits)
        then show ?thesis
        proof cases
          case left
          then show ?thesis
            using leave_body [OF c' d'] by simp
        next
          case again
          from step(1) [OF this] c' d' show ?thesis by blast
        qed
      qed
    qed
  qed
qed

lemma FindAllMaps_closes_at_return:
  "FindAllMaps_log k tbl = Some (r, log, tbl') \<Longrightarrow>
   (\<exists>body. log = body @ map EvClose (rev (opens body)) \<and> closes body = []) \<and> tbl' = tbl"
  using FindAllMaps_loop_closes_at_return [of k 0 "[]" "[]" "[]" tbl "(r, log, tbl')"]
    FindAllMaps_log_restores [of k tbl r log tbl']
  by (simp add: FindAllMaps_log_def)

text \<open>
  Claim C8 says that the handle of an enumerated ID is released right after its metadata and
  memlock are read, before the next step of the cursor. The code defers the release inside
  the loop, so it happens when \<^verbatim>\<open>FindAllMaps\<close> returns. On the kernel with the maps 1, 2, 3,
  in a process whose next free descriptor is 11, the handles get the descriptors 11, 12 and
  13: had the first handle been released before the second was opened, the second would
  have been given 11 again. The descriptor 11 is still open at the second, third and fourth
  call of the cursor, and the three handles are closed after the last call, each once.
\<close>

theorem FindAllMaps_defers_close_to_return:
  "FindAllMaps_log three_maps process_fds =
     Some (Return (Inr [map_record 1 ''execve_map'' 4096, map_record 2 ''execve_map'' 4096,
             map_record 3 ''execve_map'' 4096]),
           [EvNextID 0, EvOpen 11, EvNextID 1, EvOpen 12, EvNextID 2, EvOpen 13, EvNextID 3,
            EvClose 13, EvClose 12, EvClose 11],
           process_fds)"
  unfolding FindAllMaps_log_def
  apply (subst FindAllMaps_loop.simps, simp add: kernel_eval)
  apply (subst FindAllMaps_loop.simps, simp add: kernel_eval)
  apply (subst FindAllMaps_loop.simps, simp add: kernel_eval)
  apply (subst FindAllMaps_loop.simps, simp add: kernel_eval)
  done

subsection \<open>The walk over the pinned maps\<close>



lemma isMap_opened:
  "isMap ((fd, e) # tbl) fd =
     (case Link e of
        Inl err \<Rightarrow> Inl (Errorf ''failed to readlink the fd (%d): %w'' [ArgD (int fd)] (Some err))
      | Inr s \<Rightarrow> Inr (s = ''anon_inode:bpf-map''))"
  by (simp add: isMap_def isBPFObject_def Readlink_opened split: sum.splits)

lemma isProg_opened:
  "isProg ((fd, e) # tbl) fd =
     (case Link e of
        Inl err \<Rightarrow> Inl (Errorf ''failed to readlink the fd (%d): %w'' [ArgD (int fd)] (Some err))
      | Inr s \<Rightarrow> Inr (s = ''anon_inode:bpf-prog''))"
  by (simp add: isProg_def isBPFObject_def Readlink_opened split: sum.splits)





subsection \<open>Maps referenced by pinned programs\<close>

lemmas pinned_progs_eval =
  pinned_progs_def TetragonBPFFS_def
  mapIDsFromPinnedProgs_def mapIDsFromPinnedProgs_fn_def mapIDsFromProgs_def
  isProg_def isMap_def isBPFObject_def prog_referencing_def map_as_program_def prog_array_def
  ProgramArray_def dir_entry_def file_entry_def set_true_def Keys_def range_map_def
  run_deferred_def DAList.update.rep_eq DAList.empty.rep_eq kernel_eval

text \<open>
  An iterator that keeps to the contract of the library, \<^verbatim>\<open>Err()\<close> being nil after every
  \<^verbatim>\<open>Next\<close> that returned true, never takes the error branch in the body of the loop,
  whatever \<^verbatim>\<open>Err()\<close> is once \<^verbatim>\<open>Next\<close> has returned false.
\<close>

lemma iterate_loop_no_error:
  "\<forall>y \<in> set ys. snd (snd y) = None \<Longrightarrow>
   iterate_loop ys progIDs = Inr (progIDs @ map (\<lambda>y. ucast (fst (snd y))) ys)"
  by (induction ys arbitrary: progIDs) auto

text \<open>
  Claim C2 says that an iteration error on a program array aborts the operation. The
  loop reads \<^verbatim>\<open>Err()\<close> only after a \<^verbatim>\<open>Next\<close> that returned true; an iteration that fails
  ends with \<^verbatim>\<open>Next\<close> returning false, and then nobody reads \<^verbatim>\<open>Err()\<close>. Here the iterator
  gives the entry (0, 42) and then fails with EPERM: the operation succeeds with the map IDs
  5 and 7, computed from the entry seen before the failure. When the iterator fails before
  its first entry the operation succeeds as well, with the map ID 5 of the pinned program.
\<close>

theorem mapIDsFromPinnedProgs_ignores_iteration_error:
  "mapIDsFromPinnedProgs
     (pinned_progs \<lparr>Next_true = [(0, 42, None)], Err_after = Some (Errno 1)\<rparr>) process_fds
     TetragonBPFFS =
     (Return (Inr [5, 7]), process_fds) \<and>
   mapIDsFromPinnedProgs
     (pinned_progs \<lparr>Next_true = [], Err_after = Some (Errno 1)\<rparr>) process_fds TetragonBPFFS =
     (Return (Inr [5]), process_fds)"
  by (simp add: pinned_progs_eval)

text \<open>
  One call of the function on a directory, on a pinned program and on a pinned program
  array.
\<close>

lemma mapIDsFromPinnedProgs_fn_dir:
  "IsDir d \<Longrightarrow> mapIDsFromPinnedProgs_fn k path (Some d) e st = (Return None, st)"
  by (simp add: mapIDsFromPinnedProgs_fn_def split: prod.splits)

lemma mapIDsFromPinnedProgs_fn_prog:
  assumes "\<not> IsDir d" and "LoadPinnedProgram k path = Inr pobj"
    and "Link (Program_entry pobj) = Inr ''anon_inode:bpf-prog''"
    and "Program_Info pobj = Inr \<lparr>MapIDs = (ids, True)\<rparr>"
  shows "mapIDsFromPinnedProgs_fn k path (Some d) e (mapSet, progArrays, t) =
     (Return None, set_true (Keys (set_true (map ucast ids) DAList.empty)) mapSet,
      progArrays, t)"
proof -
  obtain p where o: "open_program pobj t = (p, (lowest_free t, Program_entry pobj) # t)"
    and fd: "Program_FD p = lowest_free t" and pi: "Program_Info p = Program_Info pobj"
    by (rule open_program_cases)
  show ?thesis
    using assms
    by (simp add: mapIDsFromPinnedProgs_fn_def o fd pi isProg_opened close_opened
        mapIDsFromProgs_def)
qed

lemma mapIDsFromPinnedProgs_fn_array:
  assumes "\<not> IsDir d" and "LoadPinnedProgram k path = Inr h"
    and "Link (Program_entry h) = Inr ''anon_inode:bpf-map''"
    and "LoadPinnedMap k path = Inr mobj" and "Map_Type mobj = ProgramArray"
  shows "mapIDsFromPinnedProgs_fn k path (Some d) e (mapSet, progArrays, t) =
     (Return None, mapSet,
      progArrays @ [Some (fst (open_map mobj ((lowest_free t, Program_entry h) # t)))],
      (lowest_free ((lowest_free t, Program_entry h) # t), Map_entry mobj) # t)"
proof -
  obtain p where o: "open_program h t = (p, (lowest_free t, Program_entry h) # t)"
    and fd: "Program_FD p = lowest_free t"
    by (rule open_program_cases)
  let ?t1 = "(lowest_free t, Program_entry h) # t"
  obtain m where om: "open_map mobj ?t1 = (m, (lowest_free ?t1, Map_entry mobj) # ?t1)"
    and mt: "Map_Type m = Map_Type mobj"
    by (rule open_map_cases)
  show ?thesis
    using assms
    by (simp add: mapIDsFromPinnedProgs_fn_def o fd om mt isProg_opened isMap_opened
        close_below_opened lowest_free_above)
qed

text \<open>The two loops after the walk, on one program array with the entry (0, 42).\<close>

lemma after_walk_tail_call:
  assumes "Map_Iterate mobj = \<lparr>Next_true = [(0, 42, None)], Err_after = None\<rparr>"
    and "NewProgramFromID k 42 = Inr p42"
    and "Program_Info p42 = Inr \<lparr>MapIDs = ([7], True)\<rparr>"
    and "fd \<notin> fst ` set t"
    and "m = fst (open_map mobj t1)" and "Map_FD m = fd"
  shows "(case progIDs_loop [Some m] [] [] of
             (Inl err, deferred) \<Rightarrow> (Return (Inl err), run_deferred deferred ((fd, x) # t))
           | (Inr progIDs, deferred) \<Rightarrow>
               (case tail_calls_loop k progIDs mapSet deferred ((fd, x) # t) of
                  (Inl err, deferred', tbl'') \<Rightarrow>
                    (Return (Inl err), run_deferred deferred' tbl'')
                | (Inr mapSet', deferred', tbl'') \<Rightarrow>
                    (Return (Inr (Keys mapSet')), run_deferred deferred' tbl''))) =
         (Return (Inr (Keys (set_true [7] mapSet))), t)"
proof -
  have it: "Map_Iterate m = \<lparr>Next_true = [(0, 42, None)], Err_after = None\<rparr>"
    using assms(1,5) by (simp add: open_map_def MapObject.defs Map.defs)
  obtain p where o: "open_program p42 ((fd, x) # t) =
      (p, (lowest_free ((fd, x) # t), Program_entry p42) # (fd, x) # t)"
    and pfd: "Program_FD p = lowest_free ((fd, x) # t)"
    and pi: "Program_Info p = Program_Info p42"
    by (rule open_program_cases)
  have ids: "mapIDsFromProgs (Some p) = Inr [7]"
    by (simp add: mapIDsFromProgs_def pi assms(3) set_true_def Keys_def range_map_def
        DAList.update.rep_eq DAList.empty.rep_eq)
  show ?thesis
    by (simp add: it assms(2,4,6) o pfd ids run_deferred_def close_opened close_other_opened)
qed

text \<open>
  Claim C6: a directory with one pinned program that references the map 5 and one
  program array whose slot 0 holds the program 42, which references the map 7, in either
  order. What an entry is shows in the link of the descriptor opened on it, whatever number
  that descriptor gets: the handle of the pinned program is closed when the function
  returns from its entry, so the handle opened on the next entry may well get the same
  number. From every descriptor table, the resolver returns the map IDs 5 and 7, each
  once, and leaves the table as it was.
\<close>

theorem mapIDsFromPinnedProgs_tail_call:
  assumes "WalkDir_calls k root =
             [(root, Some dir, e0), (p1, Some f1, e1), (p2, Some f2, e2)] \<or>
           WalkDir_calls k root =
             [(root, Some dir, e0), (p2, Some f2, e2), (p1, Some f1, e1)]"
    and "IsDir dir" "\<not> IsDir f1" "\<not> IsDir f2"
    and "LoadPinnedProgram k p1 = Inr prog"
      "Link (Program_entry prog) = Inr ''anon_inode:bpf-prog''"
      "Program_Info prog = Inr \<lparr>MapIDs = ([5], True)\<rparr>"
    and "LoadPinnedProgram k p2 = Inr h"
      "Link (Program_entry h) = Inr ''anon_inode:bpf-map''"
      "LoadPinnedMap k p2 = Inr m"
      "Map_Type m = ProgramArray"
      "Map_Iterate m = \<lparr>Next_true = [(0, 42, None)], Err_after = None\<rparr>"
    and "NewProgramFromID k 42 = Inr prog42"
      "Program_Info prog42 = Inr \<lparr>MapIDs = ([7], True)\<rparr>"
  shows "\<exists>ids. mapIDsFromPinnedProgs k tbl root = (Return (Inr ids), tbl) \<and>
           set ids = {5, 7} \<and> distinct ids"
proof -
  note dir = mapIDsFromPinnedProgs_fn_dir [OF assms(2)]
  note prog = mapIDsFromPinnedProgs_fn_prog [OF assms(3) assms(5-7)]
  note array = mapIDsFromPinnedProgs_fn_array [OF assms(4) assms(8-11)]
  let ?t1 = "(lowest_free tbl, Program_entry h) # tbl"
  let ?fd = "lowest_free ?t1"
  let ?m = "fst (open_map m ?t1)"
  have fd: "Map_FD ?m = ?fd"
    by (rule Map_FD_open_map)
  have fresh: "?fd \<notin> fst ` set tbl"
    by (rule lowest_free_not_below)
  note after = after_walk_tail_call [OF assms(12-14) fresh refl fd]
  have five: "set_true (Keys (set_true [5] DAList.empty)) DAList.empty =
      set_true [5] DAList.empty"
    by (simp add: set_true_def Keys_def range_map_def DAList.update.rep_eq DAList.empty.rep_eq)
  have keys: "Keys (set_true [7] (set_true [5] DAList.empty)) = [5, 7]"
    by (simp add: set_true_def Keys_def range_map_def DAList.update.rep_eq DAList.empty.rep_eq)
  from assms(1) have "mapIDsFromPinnedProgs k tbl root = (Return (Inr [5, 7]), tbl)"
  proof
    assume w: "WalkDir_calls k root =
      [(root, Some dir, e0), (p1, Some f1, e1), (p2, Some f2, e2)]"
    have walk: "WalkDir (mapIDsFromPinnedProgs_fn k) (WalkDir_calls k root)
        (DAList.empty, [], tbl) =
        (Return None, set_true [5] DAList.empty, [Some ?m], (?fd, Map_entry m) # tbl)"
      by (simp add: w dir prog array five)
    show ?thesis
      by (simp only: mapIDsFromPinnedProgs_def walk prod.case outcome.case option.case
          after keys)
  next
    assume w: "WalkDir_calls k root =
      [(root, Some dir, e0), (p2, Some f2, e2), (p1, Some f1, e1)]"
    have walk: "WalkDir (mapIDsFromPinnedProgs_fn k) (WalkDir_calls k root)
        (DAList.empty, [], tbl) =
        (Return None, set_true [5] DAList.empty, [Some ?m], (?fd, Map_entry m) # tbl)"
      by (simp add: w dir prog array five)
    show ?thesis
      by (simp only: mapIDsFromPinnedProgs_def walk prod.case outcome.case option.case
          after keys)
  qed
  then show ?thesis by simp
qed

text \<open>
  The directory of \<open>pinned_progs\<close> in a process whose next free descriptor is 11: the handle
  of the pinned program and the handle that the load of the array as a program gives both
  get the descriptor 11, one after the other.
\<close>

theorem mapIDsFromPinnedProgs_tail_call_witness:
  "\<exists>ids. mapIDsFromPinnedProgs
       (pinned_progs \<lparr>Next_true = [(0, 42, None)], Err_after = None\<rparr>) process_fds
       TetragonBPFFS =
       (Return (Inr ids), process_fds) \<and> set ids = {5, 7} \<and> distinct ids"
proof -
  define k where "k = pinned_progs \<lparr>Next_true = [(0, 42, None)], Err_after = None\<rparr>"
  have w: "WalkDir_calls k TetragonBPFFS =
      [(TetragonBPFFS, Some dir_entry, None),
       (''/sys/fs/bpf/tetragon/event_execve'', Some file_entry, None),
       (''/sys/fs/bpf/tetragon/execve_calls'', Some file_entry, None)] \<or>
     WalkDir_calls k TetragonBPFFS =
      [(TetragonBPFFS, Some dir_entry, None),
       (''/sys/fs/bpf/tetragon/execve_calls'', Some file_entry, None),
       (''/sys/fs/bpf/tetragon/event_execve'', Some file_entry, None)]"
    by (simp add: k_def pinned_progs_def)
  have d: "IsDir dir_entry" and f: "\<not> IsDir file_entry"
    by (simp_all add: dir_entry_def file_entry_def)
  have p1: "LoadPinnedProgram k ''/sys/fs/bpf/tetragon/event_execve'' =
      Inr (prog_referencing [5])"
    and p2: "Link (Program_entry (prog_referencing [5])) = Inr ''anon_inode:bpf-prog''"
    and p3: "Program_Info (prog_referencing [5]) = Inr \<lparr>MapIDs = ([5], True)\<rparr>"
    by (simp_all add: k_def pinned_progs_def prog_referencing_def prog_fd_def)
  have a1: "LoadPinnedProgram k ''/sys/fs/bpf/tetragon/execve_calls'' = Inr map_as_program"
    and a2: "Link (Program_entry map_as_program) = Inr ''anon_inode:bpf-map''"
    and a3: "LoadPinnedMap k ''/sys/fs/bpf/tetragon/execve_calls'' =
       Inr (prog_array \<lparr>Next_true = [(0, 42, None)], Err_after = None\<rparr>)"
    and a4: "Map_Type (prog_array \<lparr>Next_true = [(0, 42, None)], Err_after = None\<rparr>) =
       ProgramArray"
    and a5: "Map_Iterate (prog_array \<lparr>Next_true = [(0, 42, None)], Err_after = None\<rparr>) =
       \<lparr>Next_true = [(0, 42, None)], Err_after = None\<rparr>"
    by (simp_all add: k_def pinned_progs_def prog_array_def map_as_program_def map_fd_def)
  have t1: "NewProgramFromID k 42 = Inr (prog_referencing [7])"
    and t2: "Program_Info (prog_referencing [7]) = Inr \<lparr>MapIDs = ([7], True)\<rparr>"
    by (simp_all add: k_def pinned_progs_def prog_referencing_def)
  show ?thesis
    unfolding k_def [symmetric]
    by (rule mapIDsFromPinnedProgs_tail_call [OF w d f f p1 p2 p3 a1 a2 a3 a4 a5 t1 t2])
qed

end
